theory Spec2Isabelle
  imports Complex_Main "HOL-Library.Sublist"
begin

section \<open>The audio production pipeline: planner, synthesis runner, assembler\<close>

text \<open>
  The three scripts of the repository that make one chapter's narration:
  \<^item> \<^verbatim>\<open>prepare-audio-chunks.js\<close> (the planner) cuts a chapter document into chunks,
  \<^item> \<^verbatim>\<open>generate-chapter-audio.js\<close> (the synthesis runner) asks the speech service for one
    clip per chunk and makes the silence files,
  \<^item> \<^verbatim>\<open>concat-chapter-audio.js\<close> (the assembler) joins clips and silences with ffmpeg.

  JavaScript strings are sequences of UTF-16 code units, and the regular expressions of
  \<^verbatim>\<open>cleanText\<close> (no \<^verbatim>\<open>u\<close> flag) work on code units, so a block's text is a list of code
  units. Chunk ids, block types and error messages are ASCII and are HOL strings.
  Pause durations are the decimal literals of the source, read as rationals: the code
  only compares them with zero and uses them as a key of the silence file's name.
\<close>

subsection \<open>Text of a block: code units\<close>

type_synonym jsstring = "nat list"

abbreviation js :: "string \<Rightarrow> jsstring" where
  "js s \<equiv> map of_char s"

text \<open>What \<^verbatim>\<open>\s\<close> matches and \<^verbatim>\<open>trim()\<close> strips: tab, line feed, vertical tab, form feed,
  carriage return, space, no-break space, the Unicode space separators, the line and
  paragraph separators and the byte order mark.\<close>

definition is_space :: "nat \<Rightarrow> bool" where
  "is_space c \<longleftrightarrow>
     c = 9 \<or> c = 10 \<or> c = 11 \<or> c = 12 \<or> c = 13 \<or> c = 32 \<or> c = 160 \<or> c = 5760 \<or>
     (8192 \<le> c \<and> c \<le> 8202) \<or> c = 8232 \<or> c = 8233 \<or> c = 8239 \<or> c = 8287 \<or>
     c = 12288 \<or> c = 65279"

text \<open>One attempt of \<^verbatim>\<open>/\{term:([^}|]+)(?:\|([^}]+))?\}/\<close> at the head of the input: the
  replacement (\<^verbatim>\<open>customText || termId\<close>) and the rest after the match. Both character classes
  are greedy and what follows each of them is a character outside the class, so
  backtracking never finds a second way to match.\<close>

definition match_term :: "jsstring \<Rightarrow> (jsstring \<times> jsstring) option" where
  "match_term s =
     (if prefix (js ''{term:'') s then
        (let r1 = drop 6 s;
             termId = takeWhile (\<lambda>c. c \<noteq> 125 \<and> c \<noteq> 124) r1;
             r2 = dropWhile (\<lambda>c. c \<noteq> 125 \<and> c \<noteq> 124) r1
         in if termId = [] then None
            else (case r2 of
                    [] \<Rightarrow> None
                  | c # r3 \<Rightarrow>
                      if c = 125 then Some (termId, r3)
                      else (let customText = takeWhile (\<lambda>c. c \<noteq> 125) r3;
                                r4 = dropWhile (\<lambda>c. c \<noteq> 125) r3
                            in if customText = [] then None
                               else (case r4 of
                                       [] \<Rightarrow> None
                                     | _ # r5 \<Rightarrow> Some (customText, r5)))))
      else None)"

text \<open>One attempt of \<^verbatim>\<open>/\{ref:([^}]+)\}/\<close> at the head of the input: the rest after the
  match.\<close>

definition match_ref :: "jsstring \<Rightarrow> jsstring option" where
  "match_ref s =
     (if prefix (js ''{ref:'') s then
        (let r1 = drop 5 s;
             refId = takeWhile (\<lambda>c. c \<noteq> 125) r1;
             r2 = dropWhile (\<lambda>c. c \<noteq> 125) r1
         in if refId = [] then None
            else (case r2 of [] \<Rightarrow> None | _ # r3 \<Rightarrow> Some r3))
      else None)"

lemma dropWhile_Cons_shorter:
  "dropWhile P xs = c # ys \<Longrightarrow> length ys < length xs"
  using length_dropWhile_le [of P xs] by simp

lemma match_term_shorter: "match_term s = Some (r, rest) \<Longrightarrow> length rest < length s"
proof -
  assume m: "match_term s = Some (r, rest)"
  define r2 where "r2 = dropWhile (\<lambda>c. c \<noteq> 125 \<and> c \<noteq> 124) (drop 6 s)"
  from m obtain c r3 where r2: "r2 = c # r3"
    and res: "c = 125 \<and> rest = r3 \<or> (\<exists>d. dropWhile (\<lambda>c. c \<noteq> 125) r3 = d # rest)"
    by (auto simp: match_term_def Let_def r2_def split: if_splits list.splits)
  from r2 have "length r3 < length (drop 6 s)"
    unfolding r2_def by (rule dropWhile_Cons_shorter)
  then have l3: "length r3 < length s" by simp
  from res show ?thesis
  proof
    assume "c = 125 \<and> rest = r3"
    with l3 show ?thesis by simp
  next
    assume "\<exists>d. dropWhile (\<lambda>c. c \<noteq> 125) r3 = d # rest"
    then obtain d where "dropWhile (\<lambda>c. c \<noteq> 125) r3 = d # rest" ..
    then have "length rest < length r3" by (rule dropWhile_Cons_shorter)
    with l3 show ?thesis by simp
  qed
qed

lemma match_ref_shorter: "match_ref s = Some rest \<Longrightarrow> length rest < length s"
proof -
  assume m: "match_ref s = Some rest"
  then obtain d where "dropWhile (\<lambda>c. c \<noteq> 125) (drop 5 s) = d # rest"
    by (auto simp: match_ref_def Let_def split: if_splits list.splits)
  then have "length rest < length (drop 5 s)" by (rule dropWhile_Cons_shorter)
  then show ?thesis by simp
qed

text \<open>\<^verbatim>\<open>text.replace(/.../g, f)\<close>: scan from the left; where the pattern matches, emit the
  replacement and go on after the match, otherwise keep the code unit and move by one.\<close>

function replace_terms :: "jsstring \<Rightarrow> jsstring" where
  "replace_terms [] = []"
| "replace_terms (c # cs) =
     (case match_term (c # cs) of
        Some (r, rest) \<Rightarrow> r @ replace_terms rest
      | None \<Rightarrow> c # replace_terms cs)"
  by pat_completeness auto
termination
  by (relation "measure length") (auto dest: match_term_shorter)

function remove_refs :: "jsstring \<Rightarrow> jsstring" where
  "remove_refs [] = []"
| "remove_refs (c # cs) =
     (case match_ref (c # cs) of
        Some rest \<Rightarrow> remove_refs rest
      | None \<Rightarrow> c # remove_refs cs)"
  by pat_completeness auto
termination
  by (relation "measure length") (auto dest: match_ref_shorter)

text \<open>\<^verbatim>\<open>text.replace(/<em>/g, '')\<close> for a literal, non-empty tag.\<close>

function remove_all :: "jsstring \<Rightarrow> jsstring \<Rightarrow> jsstring" where
  "remove_all tag [] = []"
| "remove_all tag (c # cs) =
     (if tag \<noteq> [] \<and> prefix tag (c # cs) then remove_all tag (drop (length tag) (c # cs))
      else c # remove_all tag cs)"
  by pat_completeness auto
termination
  by (relation "measure (\<lambda>(tag, s). length s)") (auto simp: neq_Nil_conv)

text \<open>\<^verbatim>\<open>text.replace(/\s+/g, ' ')\<close>: every maximal run of white space becomes one space.\<close>

function collapse_ws :: "jsstring \<Rightarrow> jsstring" where
  "collapse_ws [] = []"
| "collapse_ws (c # cs) =
     (if is_space c then 32 # collapse_ws (dropWhile is_space cs)
      else c # collapse_ws cs)"
  by pat_completeness auto
termination
  by (relation "measure length") (auto simp: le_imp_less_Suc length_dropWhile_le)

definition trim :: "jsstring \<Rightarrow> jsstring" where
  "trim s = rev (dropWhile is_space (rev (dropWhile is_space s)))"

definition cleanText :: "jsstring \<Rightarrow> jsstring" where
  "cleanText text0 =
     (if text0 = [] then []
      else (let t1 = replace_terms text0;
                t2 = remove_refs t1;
                t3 = remove_all (js ''<em>'') t2;
                t4 = remove_all (js ''</em>'') t3;
                t5 = remove_all (js ''<strong>'') t4;
                t6 = remove_all (js ''</strong>'') t5
            in trim (collapse_ws t6)))"

subsection \<open>The planner: \<^verbatim>\<open>prepare-audio-chunks.js\<close>\<close>

record block =
  block_type :: string
  block_text :: jsstring

record doc_section =
  content :: "block list"

record chapter_doc =
  numberText :: jsstring
  title :: jsstring
  sections :: "doc_section list"

record chunk =
  chunk_id :: string
  chunk_type :: string
  chunk_text :: jsstring
  pauseAfter :: rat

record chunksData =
  chapter_no :: nat
  data_title :: jsstring
  lang :: string
  totalChunks :: nat
  chunks :: "chunk list"

text \<open>The table \<^verbatim>\<open>PAUSES\<close>, in seconds.\<close>

definition afterTitle :: rat where "afterTitle = 2.0"
definition afterParagraph :: rat where "afterParagraph = 0.8"
definition afterQuote :: rat where "afterQuote = 1.5"
definition afterSection :: rat where "afterSection = 2.5"
definition endChapter :: rat where "endChapter = 3.0"

text \<open>\<^verbatim>\<open>String(n)\<close> and \<^verbatim>\<open>`${n}`\<close> for a non-negative integer: its decimal digits.\<close>

fun string_of_nat :: "nat \<Rightarrow> string" where
  "string_of_nat n =
     (if n < 10 then [''0123456789'' ! n]
      else string_of_nat (n div 10) @ [''0123456789'' ! (n mod 10)])"

declare string_of_nat.simps [simp del]

definition padStart :: "nat \<Rightarrow> char \<Rightarrow> string \<Rightarrow> string" where
  "padStart n c s = replicate (n - length s) c @ s"

text \<open>\<^verbatim>\<open>`ch${chapterNum}-chunk-${String(chunkIndex).padStart(3, '0')}`\<close>\<close>

definition make_id :: "nat \<Rightarrow> nat \<Rightarrow> string" where
  "make_id chapterNum chunkIndex =
     ''ch'' @ string_of_nat chapterNum @ ''-chunk-'' @
     padStart 3 (CHR ''0'') (string_of_nat chunkIndex)"

text \<open>The chunk pushed before the loops; its id is the literal \<^verbatim>\<open>`ch${chapterNum}-chunk-000`\<close>.\<close>

definition intro_chunk :: "nat \<Rightarrow> chapter_doc \<Rightarrow> chunk" where
  "intro_chunk chapterNum ch =
     \<lparr>chunk_id = ''ch'' @ string_of_nat chapterNum @ ''-chunk-000'',
      chunk_type = ''intro'',
      chunk_text = numberText ch @ js ''. '' @ title ch,
      pauseAfter = afterTitle\<rparr>"

text \<open>The body of the inner \<^verbatim>\<open>forEach\<close>, on the state \<^verbatim>\<open>(chunks, chunkIndex)\<close>. The two
  assignments to \<^verbatim>\<open>pauseAfter\<close> are kept in the source's order.\<close>

definition process_block ::
  "nat \<Rightarrow> bool \<Rightarrow> bool \<Rightarrow> block \<Rightarrow> chunk list \<times> nat \<Rightarrow> chunk list \<times> nat" where
  "process_block chapterNum isLastSection isLastBlock b st =
     (let cleanedText = cleanText (block_text b) in
      if cleanedText = [] then st
      else
        (let pause0 = afterParagraph;
             pause1 = (if block_type b = ''quote'' then afterQuote else pause0);
             pause2 = (if isLastBlock \<and> isLastSection then endChapter
                       else if isLastBlock then afterSection
                       else pause1)
         in (fst st @
               [\<lparr>chunk_id = make_id chapterNum (snd st),
                 chunk_type = block_type b,
                 chunk_text = cleanedText,
                 pauseAfter = pause2\<rparr>],
             snd st + 1)))"

text \<open>\<^verbatim>\<open>section.content.forEach((block, blockIndex) => ...)\<close>: \<open>n\<close> is
  \<^verbatim>\<open>section.content.length\<close>, and \<^verbatim>\<open>blockIndex === n - 1\<close> is \<open>Suc blockIndex = n\<close> (an index
  exists only when \<open>n\<close> is positive).\<close>

fun content_forEach ::
  "nat \<Rightarrow> bool \<Rightarrow> nat \<Rightarrow> nat \<Rightarrow> block list \<Rightarrow> chunk list \<times> nat \<Rightarrow> chunk list \<times> nat" where
  "content_forEach chapterNum isLastSection n blockIndex [] st = st"
| "content_forEach chapterNum isLastSection n blockIndex (b # bs) st =
     content_forEach chapterNum isLastSection n (Suc blockIndex) bs
       (process_block chapterNum isLastSection (Suc blockIndex = n) b st)"

text \<open>\<^verbatim>\<open>chapter.sections.forEach((section, sectionIndex) => ...)\<close>\<close>

fun sections_forEach ::
  "nat \<Rightarrow> nat \<Rightarrow> nat \<Rightarrow> doc_section list \<Rightarrow> chunk list \<times> nat \<Rightarrow> chunk list \<times> nat" where
  "sections_forEach chapterNum n sectionIndex [] st = st"
| "sections_forEach chapterNum n sectionIndex (s # ss) st =
     sections_forEach chapterNum n (Suc sectionIndex) ss
       (content_forEach chapterNum (Suc sectionIndex = n) (length (content s)) 0 (content s) st)"

text \<open>The object the planner writes to \<^verbatim>\<open>chunks.json\<close> and returns.\<close>

definition prepareChapterChunks :: "nat \<Rightarrow> string \<Rightarrow> chapter_doc \<Rightarrow> chunksData" where
  "prepareChapterChunks chapterNum lng ch =
     (let st = sections_forEach chapterNum (length (sections ch)) 0 (sections ch)
                 ([intro_chunk chapterNum ch], 1)
      in \<lparr>chapter_no = chapterNum,
          data_title = title ch,
          lang = lng,
          totalChunks = length (fst st),
          chunks = fst st\<rparr>)"

subsection \<open>The planner's pause policy, as the specification words it\<close>

text \<open>Every element with the flag "is the last element of the list" (the source's
  \<^verbatim>\<open>index === length - 1\<close>).\<close>

fun mark_last :: "'a list \<Rightarrow> ('a \<times> bool) list" where
  "mark_last [] = []"
| "mark_last [x] = [(x, True)]"
| "mark_last (x # y # zs) = (x, False) # mark_last (y # zs)"

text \<open>The blocks of one section, each with "its section is the last section" and "it is
  the last block of its section"; and all content blocks of a chapter in document order.\<close>

definition section_blocks :: "doc_section \<times> bool \<Rightarrow> (block \<times> bool \<times> bool) list" where
  "section_blocks t =
     (case t of (s, lastSection) \<Rightarrow>
        map (\<lambda>(b, lastBlock). (b, lastSection, lastBlock)) (mark_last (content s)))"

definition tagged_blocks :: "chapter_doc \<Rightarrow> (block \<times> bool \<times> bool) list" where
  "tagged_blocks ch = concat (map section_blocks (mark_last (sections ch)))"

text \<open>The blocks that survive cleaning.\<close>

definition survives :: "block \<times> bool \<times> bool \<Rightarrow> bool" where
  "survives t \<longleftrightarrow> cleanText (block_text (fst t)) \<noteq> []"

definition surviving :: "chapter_doc \<Rightarrow> (block \<times> bool \<times> bool) list" where
  "surviving ch = filter survives (tagged_blocks ch)"

text \<open>The policy of the specification: chapter end over section boundary over the
  pause of the block's type.\<close>

definition pause_policy :: "block \<times> bool \<times> bool \<Rightarrow> rat" where
  "pause_policy t =
     (case t of (b, lastSection, lastBlock) \<Rightarrow>
        if lastBlock \<and> lastSection then 3.0
        else if lastBlock then 2.5
        else if block_type b = ''quote'' then 1.5
        else 0.8)"

text \<open>The unit the planner makes of a surviving block that gets the ordinal \<open>k\<close>.\<close>

definition unit_of :: "nat \<Rightarrow> nat \<Rightarrow> block \<times> bool \<times> bool \<Rightarrow> chunk" where
  "unit_of chapterNum k t =
     \<lparr>chunk_id = make_id chapterNum k,
      chunk_type = block_type (fst t),
      chunk_text = cleanText (block_text (fst t)),
      pauseAfter = pause_policy t\<rparr>"

text \<open>The units of a list of surviving blocks, numbered from \<open>k\<close>.\<close>

definition units_from :: "nat \<Rightarrow> nat \<Rightarrow> (block \<times> bool \<times> bool) list \<Rightarrow> chunk list" where
  "units_from chapterNum k ts = map (\<lambda>(j, t). unit_of chapterNum j t) (enumerate k ts)"

subsection \<open>Files, external tools and the speech service\<close>

text \<open>
  The paths a run for one chapter and language touches. A clip's path is made of its
  chunk's id and a silence's path of its duration (\<^verbatim>\<open>`silence-${duration}s.mp3`\<close>: the text
  of a number determines the number), so the model keys them by id and by duration.
\<close>

datatype path =
    ChunksJson
  | ChunksDir
  | SilencesDir
  | ChunkMp3 string
  | SilenceMp3 rat
  | ConcatList
  | FinalMp3

datatype content =
    Directory
  | Manifest chunksData
  | Speech "nat list"
  | SilentAudio rat
  | ListText "path list"
  | Joined "path list"
  | Partial
  | Garbage

datatype ffmpeg_cmd = Make_silence rat | Concat "path list"

text \<open>The part of the machine the scripts act on: the files, the ffmpeg commands run so
  far, and the milliseconds spent in \<^verbatim>\<open>sleep\<close>.\<close>

record world =
  files :: "path \<rightharpoonup> content"
  ffmpeg_runs :: "ffmpeg_cmd list"
  slept :: nat

text \<open>How a run of ffmpeg ends: well, or with an error, having left an incomplete file
  at its output path (\<open>True\<close>) or not having touched it.\<close>

datatype tool_outcome = Tool_ok | Tool_failed bool

text \<open>What the speech service answers to a request: status 200 with the audio, another
  status with a body, or no answer (the request's \<^verbatim>\<open>error\<close> event with its message).\<close>

datatype response = Audio "nat list" | Http_error nat string | Net_error string

text \<open>What the scripts do not decide: whether \<^verbatim>\<open>FISH_API_KEY\<close> is set, the answer to
  the \<open>k\<close>-th request of a run, and how ffmpeg ends.\<close>

record env =
  api_key :: bool
  tts :: "nat \<Rightarrow> response"
  make_silence :: "rat \<Rightarrow> tool_outcome"
  concat_tool :: "path list \<Rightarrow> tool_outcome"

datatype failure =
    Manifest_missing
  | Manifest_unreadable
  | Chunks_dir_missing
  | Silence_tool_failed rat
  | Silence_missing rat
  | Clips_missing "string list"
  | Concat_tool_failed

definition file_exists :: "world \<Rightarrow> path \<Rightarrow> bool" where
  "file_exists w p \<longleftrightarrow> files w p \<noteq> None"

definition write_file :: "path \<Rightarrow> content \<Rightarrow> world \<Rightarrow> world" where
  "write_file p c w = w\<lparr>files := (files w)(p \<mapsto> c)\<rparr>"

text \<open>\<^verbatim>\<open>if (!fs.existsSync(dir)) fs.mkdirSync(dir, { recursive: true })\<close>\<close>

definition ensure_dir :: "path \<Rightarrow> world \<Rightarrow> world" where
  "ensure_dir p w = (if file_exists w p then w else write_file p Directory w)"

text \<open>\<^verbatim>\<open>JSON.parse(fs.readFileSync(chunksFile))\<close>, after the check that the file exists.\<close>

definition read_manifest :: "world \<Rightarrow> failure + chunksData" where
  "read_manifest w =
     (case files w ChunksJson of
        None \<Rightarrow> Inl Manifest_missing
      | Some (Manifest m) \<Rightarrow> Inr m
      | Some _ \<Rightarrow> Inl Manifest_unreadable)"

subsection \<open>The synthesis runner: \<^verbatim>\<open>generate-chapter-audio.js\<close>\<close>

definition DELAY_BETWEEN_REQUESTS :: nat where
  "DELAY_BETWEEN_REQUESTS = 500"

definition sleep :: "nat \<Rightarrow> world \<Rightarrow> world" where
  "sleep ms w = w\<lparr>slept := slept w + ms\<rparr>"

text \<open>\<^verbatim>\<open>generateSilence\<close>: nothing when the file exists; otherwise one run of ffmpeg, whose
  failure is thrown.\<close>

definition generateSilence :: "env \<Rightarrow> rat \<Rightarrow> world \<Rightarrow> (failure \<times> world) + world" where
  "generateSilence e duration w =
     (if file_exists w (SilenceMp3 duration) then Inr w
      else
        (let w1 = w\<lparr>ffmpeg_runs := ffmpeg_runs w @ [Make_silence duration]\<rparr> in
         case make_silence e duration of
           Tool_ok \<Rightarrow> Inr (write_file (SilenceMp3 duration) (SilentAudio duration) w1)
         | Tool_failed left \<Rightarrow>
             Inl (Silence_tool_failed duration,
                  if left then write_file (SilenceMp3 duration) Partial w1 else w1)))"

definition durations :: "rat list" where
  "durations = [0.8, 1.5, 2.0, 2.5, 3.0]"

text \<open>The \<^verbatim>\<open>for (const duration of durations)\<close> of \<^verbatim>\<open>generateAllSilences\<close>: the first failure
  ends it.\<close>

fun silences_loop :: "env \<Rightarrow> rat list \<Rightarrow> world \<Rightarrow> (failure \<times> world) + world" where
  "silences_loop e [] w = Inr w"
| "silences_loop e (d # ds) w =
     (case generateSilence e d w of
        Inl err \<Rightarrow> Inl err
      | Inr w1 \<Rightarrow> silences_loop e ds w1)"

definition generateAllSilences :: "env \<Rightarrow> world \<Rightarrow> (failure \<times> world) + world" where
  "generateAllSilences e w = silences_loop e durations (ensure_dir SilencesDir w)"

text \<open>\<^verbatim>\<open>error.message.includes('429')\<close>\<close>

fun str_includes :: "string \<Rightarrow> string \<Rightarrow> bool" where
  "str_includes [] p = (p = [])"
| "str_includes (c # cs) p = (prefix p (c # cs) \<or> str_includes cs p)"

text \<open>The message of the error \<^verbatim>\<open>textToSpeech\<close> rejects with:
  \<^verbatim>\<open>`API Error ${res.statusCode}: ${errorData}`\<close>, or the message of the request's own error.\<close>

definition error_message :: "response \<Rightarrow> string" where
  "error_message r =
     (case r of
        Http_error status body \<Rightarrow> ''API Error '' @ string_of_nat status @ '': '' @ body
      | Net_error msg \<Rightarrow> msg
      | Audio _ \<Rightarrow> [])"

text \<open>The loop's variables (\<open>idx\<close> is the source's \<^verbatim>\<open>i\<close>), and the exchanges with the
  speech service so far: the index of the unit each request was for and the answer it got.\<close>

record run_state =
  st_world :: world
  idx :: int
  successCount :: nat
  errorCount :: nat
  exchanges :: "(nat \<times> response) list"

text \<open>\<^verbatim>\<open>textToSpeech\<close> for the \<open>k\<close>-th request of the run: it throws before any request when
  the API key is not set, rejects with the error's message when the answer is not the
  audio, and writes the clip when it is.\<close>

definition textToSpeech :: "env \<Rightarrow> nat \<Rightarrow> path \<Rightarrow> world \<Rightarrow> string + world" where
  "textToSpeech e k outputPath w =
     (if \<not> api_key e then Inl ''FISH_API_KEY environment variable is required''
      else (case tts e k of
              Audio bytes \<Rightarrow> Inr (write_file outputPath (Speech bytes) w)
            | answer \<Rightarrow> Inl (error_message answer)))"

text \<open>
  One pass through the body of \<^verbatim>\<open>for (let i = 0; i < chunksData.chunks.length; i++)\<close>, the
  loop's \<^verbatim>\<open>i++\<close> included; the index is an integer, so the \<^verbatim>\<open>i--\<close> of the retry is a real
  decrement. The exchange is recorded when a request was made.
\<close>

definition iteration :: "env \<Rightarrow> chunksData \<Rightarrow> run_state \<Rightarrow> run_state" where
  "iteration e m s =
     (let c = chunks m ! nat (idx s);
          outputPath = ChunkMp3 (chunk_id c)
      in if file_exists (st_world s) outputPath then
           s\<lparr>successCount := successCount s + 1, idx := idx s + 1\<rparr>
         else
           (let k = length (exchanges s);
                s1 = (if api_key e then s\<lparr>exchanges := exchanges s @ [(nat (idx s), tts e k)]\<rparr>
                      else s)
            in case textToSpeech e k outputPath (st_world s) of
                 Inr w1 \<Rightarrow>
                   s1\<lparr>st_world :=
                        (if idx s < int (totalChunks m) - 1 then sleep DELAY_BETWEEN_REQUESTS w1
                         else w1),
                      successCount := successCount s + 1,
                      idx := idx s + 1\<rparr>
               | Inl message \<Rightarrow>
                   if str_includes message ''429'' then
                     s1\<lparr>st_world := sleep 5000 (st_world s),
                        errorCount := errorCount s + 1,
                        idx := idx s - 1 + 1\<rparr>
                   else
                     s1\<lparr>errorCount := errorCount s + 1, idx := idx s + 1\<rparr>))"

text \<open>The loop. Nothing bounds the number of its passes, so it is a partial function:
  \<open>None\<close> is a run that never leaves the loop.\<close>

partial_function (option) run_loop :: "env \<Rightarrow> chunksData \<Rightarrow> run_state \<Rightarrow> run_state option" where
  "run_loop e m s =
     (if idx s < int (length (chunks m)) then run_loop e m (iteration e m s) else Some s)"

definition init_state :: "world \<Rightarrow> run_state" where
  "init_state w = \<lparr>st_world = w, idx = 0, successCount = 0, errorCount = 0, exchanges = []\<rparr>"

text \<open>\<^verbatim>\<open>generateChapterAudio\<close>: \<open>None\<close> when it never settles, a failure with the world it
  left, or the final state of the loop (the object it resolves to is \<^verbatim>\<open>successCount\<close>,
  \<^verbatim>\<open>errorCount\<close> and \<^verbatim>\<open>total: chunksData.totalChunks\<close>).\<close>

definition generateChapterAudio :: "env \<Rightarrow> world \<Rightarrow> ((failure \<times> world) + run_state) option" where
  "generateChapterAudio e w =
     (case read_manifest w of
        Inl err \<Rightarrow> Some (Inl (err, w))
      | Inr m \<Rightarrow>
          (case generateAllSilences e (ensure_dir ChunksDir w) of
             Inl err \<Rightarrow> Some (Inl err)
           | Inr w1 \<Rightarrow> map_option Inr (run_loop e m (init_state w1))))"

text \<open>\<^verbatim>\<open>main\<close> of the runner, after its argument checks: the exit status of the process and
  the world it leaves; \<open>None\<close> when the process never exits.\<close>

definition generate_main :: "env \<Rightarrow> world \<Rightarrow> (nat \<times> world) option" where
  "generate_main e w =
     map_option
       (\<lambda>r. case r of
               Inl (err, w1) \<Rightarrow> (1, w1)
             | Inr s \<Rightarrow> (if errorCount s = 0 then 0 else 1, st_world s))
       (generateChapterAudio e w)"

subsection \<open>The assembler: \<^verbatim>\<open>concat-chapter-audio.js\<close>\<close>

text \<open>The \<^verbatim>\<open>for (const chunk of chunksData.chunks)\<close> of \<^verbatim>\<open>concatChapterAudio\<close>, on the state
  \<^verbatim>\<open>(concatList, missingChunks)\<close>; the concat list is the list of the paths of its
  \<^verbatim>\<open>file '...'\<close> lines. A missing silence file ends the process where it is found.\<close>

fun concat_loop ::
  "world \<Rightarrow> chunk list \<Rightarrow> path list \<times> string list \<Rightarrow> failure + path list \<times> string list" where
  "concat_loop w [] acc = Inr acc"
| "concat_loop w (c # cs) acc =
     (if \<not> file_exists w (ChunkMp3 (chunk_id c)) then
        concat_loop w cs (fst acc, snd acc @ [chunk_id c])
      else
        (let concatList = fst acc @ [ChunkMp3 (chunk_id c)] in
         if 0 < pauseAfter c then
           (if \<not> file_exists w (SilenceMp3 (pauseAfter c)) then Inl (Silence_missing (pauseAfter c))
            else concat_loop w cs (concatList @ [SilenceMp3 (pauseAfter c)], snd acc))
         else concat_loop w cs (concatList, snd acc)))"

text \<open>\<^verbatim>\<open>concatChapterAudio\<close>: a failure with the world it left, or the world with the final
  file. ffmpeg is given the final file's own path as its output, with \<^verbatim>\<open>-y\<close>.\<close>

definition concatChapterAudio :: "env \<Rightarrow> world \<Rightarrow> (failure \<times> world) + world" where
  "concatChapterAudio e w =
     (if \<not> file_exists w ChunksJson then Inl (Manifest_missing, w)
      else if \<not> file_exists w ChunksDir then Inl (Chunks_dir_missing, w)
      else
        (case read_manifest w of
           Inl err \<Rightarrow> Inl (err, w)
         | Inr m \<Rightarrow>
             (case concat_loop w (chunks m) ([], []) of
                Inl err \<Rightarrow> Inl (err, w)
              | Inr (concatList, missingChunks) \<Rightarrow>
                  if missingChunks \<noteq> [] then Inl (Clips_missing missingChunks, w)
                  else
                    (let w1 = write_file ConcatList (ListText concatList) w;
                         w2 = w1\<lparr>ffmpeg_runs := ffmpeg_runs w1 @ [Concat concatList]\<rparr>
                     in case concat_tool e concatList of
                          Tool_ok \<Rightarrow> Inr (write_file FinalMp3 (Joined concatList) w2)
                        | Tool_failed left \<Rightarrow>
                            Inl (Concat_tool_failed,
                                 if left then write_file FinalMp3 Partial w2 else w2)))))"

text \<open>\<^verbatim>\<open>main\<close> of the assembler, after its argument checks: the exit status and the world
  it leaves.\<close>

definition concat_main :: "env \<Rightarrow> world \<Rightarrow> nat \<times> world" where
  "concat_main e w =
     (case concatChapterAudio e w of
        Inl (err, w1) \<Rightarrow> (1, w1)
      | Inr w1 \<Rightarrow> (0, w1))"

text \<open>The concat list the specification describes: for each unit in manifest order its
  clip, then the silence of its own pause when the pause is positive.\<close>

definition unit_entries :: "chunk \<Rightarrow> path list" where
  "unit_entries c =
     ChunkMp3 (chunk_id c) # (if 0 < pauseAfter c then [SilenceMp3 (pauseAfter c)] else [])"

definition concat_entries :: "chunk list \<Rightarrow> path list" where
  "concat_entries cs = concat (map unit_entries cs)"

subsection \<open>Example documents\<close>

text \<open>A paragraph and a quote with an ASCII text; a chapter as in the scenario of the
  specification; and a chapter with a block in the middle and the last block of the last
  section cleaning to the empty text.\<close>

definition par :: "string \<Rightarrow> block" where
  "par s = \<lparr>block_type = ''paragraph'', block_text = js s\<rparr>"

definition quo :: "string \<Rightarrow> block" where
  "quo s = \<lparr>block_type = ''quote'', block_text = js s\<rparr>"

definition chapter_A :: chapter_doc where
  "chapter_A = \<lparr>numberText = js ''One'', title = js ''Origins'',
     sections = [\<lparr>content = [par ''first'', par ''second'']\<rparr>, \<lparr>content = [par ''third'']\<rparr>]\<rparr>"

definition chapter_B :: chapter_doc where
  "chapter_B = \<lparr>numberText = js ''Two'', title = js ''Practice'',
     sections = [\<lparr>content = [quo ''a'', par '' {ref:n1} <em></em> '', par ''b'']\<rparr>,
                 \<lparr>content = [par ''c'', quo ''{ref:n2}'']\<rparr>]\<rparr>"

subsection \<open>Notions used to state the properties\<close>

text \<open>The ids of the units whose clip is not on disk, and the units whose clip is, both in
  manifest order.\<close>

definition missing_ids :: "world \<Rightarrow> chunk list \<Rightarrow> string list" where
  "missing_ids w cs = map chunk_id (filter (\<lambda>c. \<not> file_exists w (ChunkMp3 (chunk_id c))) cs)"

definition present :: "world \<Rightarrow> chunk list \<Rightarrow> chunk list" where
  "present w cs = filter (\<lambda>c. file_exists w (ChunkMp3 (chunk_id c))) cs"

text \<open>The runner's own test for the throttling signal, on an answer of the service.\<close>

definition throttled :: "response \<Rightarrow> bool" where
  "throttled r \<longleftrightarrow> (case r of Audio _ \<Rightarrow> False | _ \<Rightarrow> str_includes (error_message r) ''429'')"

text \<open>The number of throttled answers among the exchanges of a run.\<close>

definition throttle_count :: "run_state \<Rightarrow> nat" where
  "throttle_count s = length (filter (\<lambda>x. throttled (snd x)) (exchanges s))"

text \<open>All five silence files are on disk.\<close>

definition all_silences :: "world \<Rightarrow> bool" where
  "all_silences w \<longleftrightarrow> list_all (\<lambda>d. file_exists w (SilenceMp3 d)) durations"

text \<open>A state the loop cannot leave: the unit at the index has no clip, and every
  request from now on is answered with the throttling signal.\<close>

definition stuck :: "env \<Rightarrow> chunksData \<Rightarrow> run_state \<Rightarrow> bool" where
  "stuck e m s \<longleftrightarrow>
     api_key e \<and> 0 \<le> idx s \<and> idx s < int (length (chunks m)) \<and>
     \<not> file_exists (st_world s) (ChunkMp3 (chunk_id (chunks m ! nat (idx s)))) \<and>
     (\<forall>k \<ge> length (exchanges s). throttled (tts e k))"

text \<open>Every unit before the index has its clip on disk.\<close>

definition clips_behind :: "chunksData \<Rightarrow> run_state \<Rightarrow> bool" where
  "clips_behind m s \<longleftrightarrow>
     (\<forall>j. j < nat (idx s) \<and> j < length (chunks m) \<longrightarrow>
        file_exists (st_world s) (ChunkMp3 (chunk_id (chunks m ! j))))"

subsection \<open>Example manifests, worlds and environments\<close>

text \<open>A manifest of three units, the second with no pause.\<close>

definition mk_chunk :: "string \<Rightarrow> string \<Rightarrow> rat \<Rightarrow> chunk" where
  "mk_chunk ident ty pause =
     \<lparr>chunk_id = ident, chunk_type = ty, chunk_text = js ''text'', pauseAfter = pause\<rparr>"

definition manifest_3 :: chunksData where
  "manifest_3 =
     \<lparr>chapter_no = 1, data_title = js ''Origins'', lang = ''en'', totalChunks = 3,
      chunks = [mk_chunk ''ch1-chunk-000'' ''intro'' 2.0,
                mk_chunk ''ch1-chunk-001'' ''paragraph'' 0,
                mk_chunk ''ch1-chunk-002'' ''paragraph'' 0.8]\<rparr>"

text \<open>All clips and silence files on disk, and a final file of an earlier run.\<close>

definition world_ready :: world where
  "world_ready =
     \<lparr>files = map_of
        [(ChunksJson, Manifest manifest_3), (ChunksDir, Directory), (SilencesDir, Directory),
         (ChunkMp3 ''ch1-chunk-000'', Speech [0]),
         (ChunkMp3 ''ch1-chunk-001'', Speech [1]),
         (ChunkMp3 ''ch1-chunk-002'', Speech [2]),
         (SilenceMp3 0.8, SilentAudio 0.8), (SilenceMp3 1.5, SilentAudio 1.5),
         (SilenceMp3 2.0, SilentAudio 2.0), (SilenceMp3 2.5, SilentAudio 2.5),
         (SilenceMp3 3.0, SilentAudio 3.0),
         (FinalMp3, Joined [ChunkMp3 ''ch1-chunk-000''])],
      ffmpeg_runs = [], slept = 0\<rparr>"

text \<open>The clips of the second and third unit are missing; the silence files that the
  first unit and the third need exist.\<close>

definition world_two_missing :: world where
  "world_two_missing =
     \<lparr>files = map_of
        [(ChunksJson, Manifest manifest_3), (ChunksDir, Directory), (SilencesDir, Directory),
         (ChunkMp3 ''ch1-chunk-000'', Speech [0]),
         (SilenceMp3 0.8, SilentAudio 0.8), (SilenceMp3 2.0, SilentAudio 2.0)],
      ffmpeg_runs = [], slept = 0\<rparr>"

text \<open>The clip of the third unit is missing and no silence file has been made.\<close>

definition world_no_silence :: world where
  "world_no_silence =
     \<lparr>files = map_of
        [(ChunksJson, Manifest manifest_3), (ChunksDir, Directory),
         (ChunkMp3 ''ch1-chunk-000'', Speech [0]),
         (ChunkMp3 ''ch1-chunk-001'', Speech [1])],
      ffmpeg_runs = [], slept = 0\<rparr>"

text \<open>Only the manifest exists.\<close>

definition world_fresh :: world where
  "world_fresh = \<lparr>files = map_of [(ChunksJson, Manifest manifest_3)], ffmpeg_runs = [], slept = 0\<rparr>"

text \<open>All silence files and the first two clips exist.\<close>

definition world_one_left :: world where
  "world_one_left =
     \<lparr>files = map_of
        [(ChunksJson, Manifest manifest_3), (ChunksDir, Directory), (SilencesDir, Directory),
         (ChunkMp3 ''ch1-chunk-000'', Speech [0]),
         (ChunkMp3 ''ch1-chunk-001'', Speech [1]),
         (SilenceMp3 0.8, SilentAudio 0.8), (SilenceMp3 1.5, SilentAudio 1.5),
         (SilenceMp3 2.0, SilentAudio 2.0), (SilenceMp3 2.5, SilentAudio 2.5),
         (SilenceMp3 3.0, SilentAudio 3.0)],
      ffmpeg_runs = [], slept = 0\<rparr>"

text \<open>Environments: everything works; the concatenation fails having left an incomplete
  file; every request is throttled; only the first request is throttled.\<close>

definition env_ok :: env where
  "env_ok = \<lparr>api_key = True, tts = (\<lambda>k. Audio [k]), make_silence = (\<lambda>d. Tool_ok),
             concat_tool = (\<lambda>l. Tool_ok)\<rparr>"

definition env_concat_fails :: env where
  "env_concat_fails = \<lparr>api_key = True, tts = (\<lambda>k. Audio [k]), make_silence = (\<lambda>d. Tool_ok),
             concat_tool = (\<lambda>l. Tool_failed True)\<rparr>"

definition env_throttled :: env where
  "env_throttled =
     \<lparr>api_key = True, tts = (\<lambda>k. Http_error 429 ''Too Many Requests''),
      make_silence = (\<lambda>d. Tool_ok), concat_tool = (\<lambda>l. Tool_ok)\<rparr>"

definition env_throttled_once :: env where
  "env_throttled_once =
     \<lparr>api_key = True,
      tts = (\<lambda>k. if k = 0 then Http_error 429 ''Too Many Requests'' else Audio [7]),
      make_silence = (\<lambda>d. Tool_ok), concat_tool = (\<lambda>l. Tool_ok)\<rparr>"

text \<open>The final states of the run on \<open>world_ready\<close>, and of the run on \<open>world_one_left\<close> whose
  first request is throttled.\<close>

definition state_after_rerun :: run_state where
  "state_after_rerun =
     \<lparr>st_world = world_ready, idx = 3, successCount = 3, errorCount = 0, exchanges = []\<rparr>"

definition state_after_retry :: run_state where
  "state_after_retry =
     \<lparr>st_world = write_file (ChunkMp3 ''ch1-chunk-002'') (Speech [7]) (sleep 5000 world_one_left),
      idx = 3, successCount = 3, errorCount = 1,
      exchanges = [(2, Http_error 429 ''Too Many Requests''), (2, Audio [7])]\<rparr>"

section \<open>Properties\<close>

subsection \<open>The planner's output, unit by unit\<close>

lemma mark_last_Cons: "mark_last (x # xs) = (x, xs = []) # mark_last xs"
  by (cases xs) simp_all

lemma mark_last_index: "mark_last xs = map (\<lambda>i. (xs ! i, Suc i = length xs)) [0..<length xs]"
proof (induction xs)
  case Nil
  show ?case by simp
next
  case (Cons x xs)
  have "[0..<length (x # xs)] = 0 # map Suc [0..<length xs]"
    by (simp add: map_Suc_upt upt_conv_Cons del: upt_Suc)
  then have "map (\<lambda>i. ((x # xs) ! i, Suc i = length (x # xs))) [0..<length (x # xs)] =
        (x, xs = []) # map (\<lambda>i. (xs ! i, Suc i = length xs)) [0..<length xs]"
    by (simp add: comp_def del: upt_Suc)
  with Cons show ?case by (simp add: mark_last_Cons)
qed

lemma mark_last_True: "(x, True) \<in> set (mark_last xs) \<Longrightarrow> x = last xs"
  by (induction xs rule: mark_last.induct) auto

lemma units_from_Nil: "units_from cn k [] = []"
  by (simp add: units_from_def)

lemma units_from_Cons: "units_from cn k (t # ts) = unit_of cn k t # units_from cn (Suc k) ts"
  by (simp add: units_from_def)

lemma units_from_append:
  "units_from cn k (ts @ us) = units_from cn k ts @ units_from cn (k + length ts) us"
  by (simp add: units_from_def enumerate_append_eq)

lemma length_units_from: "length (units_from cn k ts) = length ts"
  by (simp add: units_from_def)

lemma process_block_unit:
  "process_block cn ls lb b (cs, k) =
     (if survives (b, ls, lb) then (cs @ [unit_of cn k (b, ls, lb)], Suc k) else (cs, k))"
  by (simp add: process_block_def survives_def unit_of_def pause_policy_def Let_def
      afterParagraph_def afterQuote_def afterSection_def endChapter_def)

lemma content_forEach_units:
  "i + length bs = n \<Longrightarrow>
   content_forEach cn ls n i bs (cs, k) =
     (cs @ units_from cn k (filter survives (map (\<lambda>(b, lb). (b, ls, lb)) (mark_last bs))),
      k + length (filter survives (map (\<lambda>(b, lb). (b, ls, lb)) (mark_last bs))))"
proof (induction bs arbitrary: i cs k)
  case Nil
  then show ?case by (simp add: units_from_Nil)
next
  case (Cons b bs)
  from Cons.prems have last: "(Suc i = n) = (bs = [])" by auto
  from Cons.prems have "Suc i + length bs = n" by simp
  note IH = Cons.IH [OF this]
  show ?case
    by (simp add: last process_block_unit IH mark_last_Cons units_from_Cons)
qed

lemma sections_forEach_units:
  "i + length ss = n \<Longrightarrow>
   sections_forEach cn n i ss (cs, k) =
     (cs @ units_from cn k (filter survives (concat (map section_blocks (mark_last ss)))),
      k + length (filter survives (concat (map section_blocks (mark_last ss)))))"
proof (induction ss arbitrary: i cs k)
  case Nil
  then show ?case by (simp add: units_from_Nil)
next
  case (Cons s ss)
  from Cons.prems have last: "(Suc i = n) = (ss = [])" by auto
  from Cons.prems have "Suc i + length ss = n" by simp
  note IH = Cons.IH [OF this]
  have inner: "content_forEach cn (ss = []) (length (content s)) 0 (content s) (cs, k) =
     (cs @ units_from cn k (filter survives (section_blocks (s, ss = []))),
      k + length (filter survives (section_blocks (s, ss = []))))"
    by (simp add: content_forEach_units section_blocks_def)
  show ?case
    by (simp add: last inner IH mark_last_Cons units_from_append add.assoc)
qed

lemma surviving_eq: "surviving ch = filter survives (concat (map section_blocks (mark_last (sections ch))))"
  by (simp add: surviving_def tagged_blocks_def)

lemma chunks_prepareChapterChunks:
  "chunks (prepareChapterChunks cn lng ch) = intro_chunk cn ch # units_from cn 1 (surviving ch)"
  by (simp add: prepareChapterChunks_def Let_def sections_forEach_units surviving_eq)

lemma pauseAfter_units_from: "map pauseAfter (units_from cn k ts) = map pause_policy ts"
  by (induction ts arbitrary: k) (simp_all add: units_from_Nil units_from_Cons unit_of_def)

lemma chunk_id_units_from: "map chunk_id (units_from cn k ts) = map (make_id cn) [k..<k + length ts]"
  by (induction ts arbitrary: k) (simp_all add: units_from_Nil units_from_Cons unit_of_def upt_rec)

lemma string_of_nat_0: "string_of_nat 0 = ''0''"
  by (simp add: string_of_nat.simps)

lemma replicate_3: "replicate 3 x = [x, x, x]" "replicate 2 x = [x, x]"
  by (simp_all add: numeral_3_eq_3 numeral_2_eq_2)

lemma intro_id: "chunk_id (intro_chunk cn ch) = make_id cn 0"
  by (simp add: intro_chunk_def make_id_def padStart_def string_of_nat_0 replicate_3)

lemma tagged_last_last:
  assumes "(b, True, True) \<in> set (tagged_blocks ch)"
  shows "b = last (content (last (sections ch)))"
proof -
  from assms obtain s where s: "(s, True) \<in> set (mark_last (sections ch))"
    and b: "(b, True) \<in> set (mark_last (content s))"
    by (auto simp: tagged_blocks_def section_blocks_def)
  from s have "s = last (sections ch)" by (rule mark_last_True)
  moreover from b have "b = last (content s)" by (rule mark_last_True)
  ultimately show ?thesis by simp
qed

lemma pause_policy_values: "pause_policy t \<in> {3.0, 2.5, 1.5, 0.8}"
  by (cases t) (simp add: pause_policy_def)

lemma pause_policy_chapter_end: "pause_policy (b, ls, lb) = 3 \<longleftrightarrow> ls \<and> lb"
  by (auto simp: pause_policy_def split: if_splits)

lemma surviving_not_chapter_end:
  assumes "cleanText (block_text (last (content (last (sections ch))))) = []"
    and "t \<in> set (surviving ch)"
  shows "pause_policy t \<noteq> 3.0"
proof
  assume p: "pause_policy t = 3.0"
  obtain b ls lb where t: "t = (b, ls, lb)" by (cases t)
  with p have "ls \<and> lb" by (simp add: pause_policy_chapter_end)
  with t assms(2) have "(b, True, True) \<in> set (tagged_blocks ch)" and "survives (b, True, True)"
    by (auto simp: surviving_def)
  then show False using assms(1) by (auto dest: tagged_last_last simp: survives_def)
qed

subsection \<open>The assembler's loop\<close>

lemma concat_loop_result:
  assumes "\<forall>c\<in>set cs. file_exists w (ChunkMp3 (chunk_id c)) \<longrightarrow> 0 < pauseAfter c \<longrightarrow>
             file_exists w (SilenceMp3 (pauseAfter c))"
  shows "concat_loop w cs (l, ms) = Inr (l @ concat_entries (present w cs), ms @ missing_ids w cs)"
  using assms
proof (induction cs arbitrary: l ms)
  case Nil
  show ?case by (simp add: concat_entries_def present_def missing_ids_def)
next
  case (Cons c cs)
  then have IH: "\<And>l ms. concat_loop w cs (l, ms) =
      Inr (l @ concat_entries (present w cs), ms @ missing_ids w cs)"
    by simp
  from Cons.prems have sil: "file_exists w (ChunkMp3 (chunk_id c)) \<Longrightarrow> 0 < pauseAfter c \<Longrightarrow>
      file_exists w (SilenceMp3 (pauseAfter c))"
    by simp
  show ?case
    using sil
    by (simp add: IH Let_def concat_entries_def present_def missing_ids_def unit_entries_def)
qed

lemma concat_loop_missing:
  "concat_loop w cs (l, ms) = Inr (l', ms') \<Longrightarrow> ms' = ms @ missing_ids w cs"
proof (induction cs arbitrary: l ms)
  case Nil
  then show ?case by (simp add: missing_ids_def)
next
  case (Cons c cs)
  from Cons.prems show ?case
    by (auto simp: missing_ids_def Let_def split: if_splits dest!: Cons.IH)
qed

lemma missing_ids_Nil_iff:
  "missing_ids w cs = [] \<longleftrightarrow> (\<forall>c\<in>set cs. file_exists w (ChunkMp3 (chunk_id c)))"
  by (auto simp: missing_ids_def filter_empty_conv)

lemma present_all:
  "\<forall>c\<in>set cs. file_exists w (ChunkMp3 (chunk_id c)) \<Longrightarrow> present w cs = cs"
  by (simp add: present_def)

lemma read_manifest_exists: "read_manifest w = Inr m \<Longrightarrow> file_exists w ChunksJson"
  by (auto simp: read_manifest_def file_exists_def split: option.splits)

lemma length_concat_entries:
  "length (concat_entries cs) + length (filter (\<lambda>c. \<not> 0 < pauseAfter c) cs) = 2 * length cs"
  by (induction cs) (simp_all add: concat_entries_def unit_entries_def)

lemma concatChapterAudio_ready:
  assumes m: "read_manifest w = Inr m"
    and d: "file_exists w ChunksDir"
    and clips: "\<forall>c\<in>set (chunks m). file_exists w (ChunkMp3 (chunk_id c))"
    and sil: "\<forall>c\<in>set (chunks m). 0 < pauseAfter c \<longrightarrow> file_exists w (SilenceMp3 (pauseAfter c))"
  shows "concatChapterAudio e w =
     (let l = concat_entries (chunks m);
          w2 = (write_file ConcatList (ListText l) w)\<lparr>ffmpeg_runs := ffmpeg_runs w @ [Concat l]\<rparr>
      in case concat_tool e l of
           Tool_ok \<Rightarrow> Inr (write_file FinalMp3 (Joined l) w2)
         | Tool_failed left \<Rightarrow>
             Inl (Concat_tool_failed, if left then write_file FinalMp3 Partial w2 else w2))"
proof -
  from sil have "\<forall>c\<in>set (chunks m). file_exists w (ChunkMp3 (chunk_id c)) \<longrightarrow> 0 < pauseAfter c \<longrightarrow>
             file_exists w (SilenceMp3 (pauseAfter c))" by simp
  then have "concat_loop w (chunks m) ([], []) =
      Inr ([] @ concat_entries (present w (chunks m)), [] @ missing_ids w (chunks m))"
    by (rule concat_loop_result)
  moreover have "missing_ids w (chunks m) = []" using clips by (simp add: missing_ids_Nil_iff)
  moreover have "present w (chunks m) = chunks m" using clips by (rule present_all)
  ultimately have loop: "concat_loop w (chunks m) ([], []) = Inr (concat_entries (chunks m), [])"
    by simp
  show ?thesis
    using read_manifest_exists [OF m] d
    by (simp add: concatChapterAudio_def m loop Let_def write_file_def split: tool_outcome.splits)
qed

subsection \<open>Silence files\<close>

lemma generateSilence_exists:
  "file_exists w (SilenceMp3 d) \<Longrightarrow> generateSilence e d w = Inr w"
  by (simp add: generateSilence_def)

lemma generateSilence_creates:
  assumes "\<not> file_exists w (SilenceMp3 d)" and "make_silence e d = Tool_ok"
  shows "generateSilence e d w =
     Inr (w\<lparr>files := (files w)(SilenceMp3 d \<mapsto> SilentAudio d),
            ffmpeg_runs := ffmpeg_runs w @ [Make_silence d]\<rparr>)"
  using assms by (simp add: generateSilence_def Let_def write_file_def)

lemma generateSilence_frame:
  assumes "generateSilence e d w = Inr w1"
  shows "file_exists w1 (SilenceMp3 d)"
    and "\<And>p. p \<noteq> SilenceMp3 d \<Longrightarrow> files w1 p = files w p"
    and "\<And>p. file_exists w p \<Longrightarrow> files w1 p = files w p"
    and "slept w1 = slept w"
  using assms
  by (auto simp: generateSilence_def Let_def write_file_def file_exists_def
      split: if_splits tool_outcome.splits)

lemma silences_loop_frame:
  assumes "silences_loop e ds w = Inr w1"
  shows "(\<forall>d\<in>set ds. file_exists w1 (SilenceMp3 d)) \<and>
         (\<forall>p. (\<forall>d. p \<noteq> SilenceMp3 d) \<longrightarrow> files w1 p = files w p) \<and>
         (\<forall>p. file_exists w p \<longrightarrow> files w1 p = files w p) \<and>
         slept w1 = slept w"
  using assms
proof (induction ds arbitrary: w)
  case Nil
  then show ?case by simp
next
  case (Cons d ds)
  from Cons.prems obtain w' where g: "generateSilence e d w = Inr w'"
    and l: "silences_loop e ds w' = Inr w1"
    by (auto split: sum.splits)
  note f = generateSilence_frame [OF g]
  note IH = Cons.IH [OF l]
  have keep: "\<And>p. file_exists w' p \<Longrightarrow> file_exists w1 p"
    using IH by (simp add: file_exists_def)
  have "file_exists w1 (SilenceMp3 d)" using f(1) by (rule keep)
  moreover have "\<forall>p. file_exists w p \<longrightarrow> files w1 p = files w p"
    using f(3) IH by (metis file_exists_def)
  moreover have "\<forall>p. (\<forall>d. p \<noteq> SilenceMp3 d) \<longrightarrow> files w1 p = files w p"
    using f(2) IH by simp
  ultimately show ?case using IH f(4) by simp
qed

lemma silences_loop_succeeds:
  assumes "\<forall>d\<in>set ds. file_exists w (SilenceMp3 d) \<or> make_silence e d = Tool_ok"
  shows "\<exists>w1. silences_loop e ds w = Inr w1"
  using assms
proof (induction ds arbitrary: w)
  case Nil
  show ?case by simp
next
  case (Cons d ds)
  from Cons.prems have "file_exists w (SilenceMp3 d) \<or> make_silence e d = Tool_ok" by simp
  then obtain w' where g: "generateSilence e d w = Inr w'"
    by (cases "file_exists w (SilenceMp3 d)")
      (auto simp: generateSilence_exists generateSilence_creates)
  have "\<forall>d\<in>set ds. file_exists w' (SilenceMp3 d) \<or> make_silence e d = Tool_ok"
    using Cons.prems generateSilence_frame(3) [OF g] by (auto simp: file_exists_def)
  from Cons.IH [OF this] g show ?case by simp
qed

lemma ensure_dir_frame:
  "file_exists w p \<Longrightarrow> files (ensure_dir q w) p = files w p"
  "p \<noteq> q \<Longrightarrow> files (ensure_dir q w) p = files w p"
  "slept (ensure_dir q w) = slept w"
  "ffmpeg_runs (ensure_dir q w) = ffmpeg_runs w"
  by (auto simp: ensure_dir_def write_file_def file_exists_def)

lemma generateAllSilences_frame:
  assumes "generateAllSilences e w = Inr w1"
  shows "all_silences w1"
    and "\<And>c. files w1 (ChunkMp3 c) = files w (ChunkMp3 c)"
    and "files w1 ChunksJson = files w ChunksJson"
    and "slept w1 = slept w"
proof -
  note f = silences_loop_frame [OF assms [unfolded generateAllSilences_def]]
  from f show "all_silences w1" by (simp add: all_silences_def list_all_iff)
  from f show "\<And>c. files w1 (ChunkMp3 c) = files w (ChunkMp3 c)"
    by (simp add: ensure_dir_frame)
  from f show "files w1 ChunksJson = files w ChunksJson"
    by (simp add: ensure_dir_frame)
  from f show "slept w1 = slept w" by (simp add: ensure_dir_frame)
qed

lemma generateAllSilences_succeeds:
  assumes "\<forall>d\<in>set durations. file_exists w (SilenceMp3 d) \<or> make_silence e d = Tool_ok"
  shows "\<exists>w1. generateAllSilences e w = Inr w1"
  unfolding generateAllSilences_def
proof (rule silences_loop_succeeds)
  show "\<forall>d\<in>set durations. file_exists (ensure_dir SilencesDir w) (SilenceMp3 d) \<or>
      make_silence e d = Tool_ok"
    using assms ensure_dir_frame(1) [of w _ SilencesDir] by (auto simp: file_exists_def)
qed

lemma provisioning_succeeds:
  assumes "\<forall>d\<in>set durations. file_exists w (SilenceMp3 d) \<or> make_silence e d = Tool_ok"
  shows "\<exists>w1. generateAllSilences e (ensure_dir ChunksDir w) = Inr w1"
proof (rule generateAllSilences_succeeds)
  show "\<forall>d\<in>set durations. file_exists (ensure_dir ChunksDir w) (SilenceMp3 d) \<or>
      make_silence e d = Tool_ok"
    using assms ensure_dir_frame(1) [of w _ ChunksDir] by (auto simp: file_exists_def)
qed

lemma distinct_durations: "distinct durations"
  by (simp add: durations_def)

lemma silences_loop_provisions:
  assumes "distinct ds"
    and "\<forall>d\<in>set ds. file_exists w (SilenceMp3 d) \<or> make_silence e d = Tool_ok"
  shows "\<exists>w1. silences_loop e ds w = Inr w1 \<and>
           ffmpeg_runs w1 =
             ffmpeg_runs w @ map Make_silence (filter (\<lambda>d. \<not> file_exists w (SilenceMp3 d)) ds) \<and>
           (\<forall>d\<in>set ds. \<not> file_exists w (SilenceMp3 d) \<longrightarrow>
              files w1 (SilenceMp3 d) = Some (SilentAudio d))"
  using assms
proof (induction ds arbitrary: w)
  case Nil
  show ?case by simp
next
  case (Cons d ds)
  let ?w' = "w\<lparr>files := (files w)(SilenceMp3 d \<mapsto> SilentAudio d),
               ffmpeg_runs := ffmpeg_runs w @ [Make_silence d]\<rparr>"
  from Cons.prems have dist: "distinct ds" and notin: "d \<notin> set ds" by simp_all
  show ?case
  proof (cases "file_exists w (SilenceMp3 d)")
    case True
    then have g: "generateSilence e d w = Inr w" by (rule generateSilence_exists)
    from Cons.prems have "\<forall>d\<in>set ds. file_exists w (SilenceMp3 d) \<or> make_silence e d = Tool_ok"
      by simp
    from Cons.IH [OF dist this] obtain w1 where
      l: "silences_loop e ds w = Inr w1"
      and r: "ffmpeg_runs w1 =
             ffmpeg_runs w @ map Make_silence (filter (\<lambda>d. \<not> file_exists w (SilenceMp3 d)) ds)"
      and f: "\<forall>d\<in>set ds. \<not> file_exists w (SilenceMp3 d) \<longrightarrow>
              files w1 (SilenceMp3 d) = Some (SilentAudio d)"
      by blast
    from l r f True g show ?thesis by simp
  next
    case False
    with Cons.prems have ok: "make_silence e d = Tool_ok" by simp
    from False ok have g: "generateSilence e d w = Inr ?w'" by (rule generateSilence_creates)
    have same: "\<And>d'. d' \<in> set ds \<Longrightarrow>
        file_exists ?w' (SilenceMp3 d') = file_exists w (SilenceMp3 d')"
      using notin by (auto simp: file_exists_def)
    have "\<forall>d\<in>set ds. file_exists ?w' (SilenceMp3 d) \<or> make_silence e d = Tool_ok"
      using Cons.prems(2) same by auto
    from Cons.IH [OF dist this] obtain w1 where
      l: "silences_loop e ds ?w' = Inr w1"
      and r: "ffmpeg_runs w1 =
             ffmpeg_runs ?w' @ map Make_silence (filter (\<lambda>d. \<not> file_exists ?w' (SilenceMp3 d)) ds)"
      and f: "\<forall>d\<in>set ds. \<not> file_exists ?w' (SilenceMp3 d) \<longrightarrow>
              files w1 (SilenceMp3 d) = Some (SilentAudio d)"
      by blast
    have flt: "filter (\<lambda>d. \<not> file_exists ?w' (SilenceMp3 d)) ds =
        filter (\<lambda>d. \<not> file_exists w (SilenceMp3 d)) ds"
      by (rule filter_cong) (simp_all add: same)
    have ex: "file_exists ?w' (SilenceMp3 d)" by (simp add: file_exists_def)
    have "files w1 (SilenceMp3 d) = files ?w' (SilenceMp3 d)"
      using silences_loop_frame [OF l] ex by blast
    then have fd: "files w1 (SilenceMp3 d) = Some (SilentAudio d)" by simp
    have "silences_loop e (d # ds) w = Inr w1" using g l by simp
    moreover have "ffmpeg_runs w1 =
        ffmpeg_runs w @ map Make_silence (filter (\<lambda>d. \<not> file_exists w (SilenceMp3 d)) (d # ds))"
      using r flt False by simp
    moreover have "\<forall>d'\<in>set (d # ds). \<not> file_exists w (SilenceMp3 d') \<longrightarrow>
        files w1 (SilenceMp3 d') = Some (SilentAudio d')"
      using f fd same by auto
    ultimately show ?thesis by blast
  qed
qed

lemma generateAllSilences_provisions:
  assumes "\<forall>d\<in>set durations. file_exists w (SilenceMp3 d) \<or> make_silence e d = Tool_ok"
  shows "\<exists>w1. generateAllSilences e w = Inr w1 \<and> all_silences w1 \<and>
           ffmpeg_runs w1 =
             ffmpeg_runs w @
             map Make_silence (filter (\<lambda>d. \<not> file_exists w (SilenceMp3 d)) durations) \<and>
           (\<forall>d\<in>set durations. \<not> file_exists w (SilenceMp3 d) \<longrightarrow>
              files w1 (SilenceMp3 d) = Some (SilentAudio d)) \<and>
           (\<forall>p. file_exists w p \<longrightarrow> files w1 p = files w p)"
proof -
  let ?w0 = "ensure_dir SilencesDir w"
  have same: "\<And>d. file_exists ?w0 (SilenceMp3 d) = file_exists w (SilenceMp3 d)"
    by (simp add: file_exists_def ensure_dir_frame(2))
  from assms have "\<forall>d\<in>set durations. file_exists ?w0 (SilenceMp3 d) \<or> make_silence e d = Tool_ok"
    by (simp add: same)
  from silences_loop_provisions [OF distinct_durations this] obtain w1 where
    l: "silences_loop e durations ?w0 = Inr w1"
    and r: "ffmpeg_runs w1 =
        ffmpeg_runs ?w0 @ map Make_silence (filter (\<lambda>d. \<not> file_exists ?w0 (SilenceMp3 d)) durations)"
    and f: "\<forall>d\<in>set durations. \<not> file_exists ?w0 (SilenceMp3 d) \<longrightarrow>
        files w1 (SilenceMp3 d) = Some (SilentAudio d)"
    by blast
  have g: "generateAllSilences e w = Inr w1" by (simp add: generateAllSilences_def l)
  note fr = silences_loop_frame [OF l]
  have keep: "\<forall>p. file_exists w p \<longrightarrow> files w1 p = files w p"
  proof (intro allI impI)
    fix p assume p: "file_exists w p"
    then have "files ?w0 p = files w p" by (rule ensure_dir_frame(1))
    moreover from this p have "file_exists ?w0 p" by (simp add: file_exists_def)
    ultimately show "files w1 p = files w p" using fr by simp
  qed
  from g have "all_silences w1" by (rule generateAllSilences_frame(1))
  with g r f keep show ?thesis by (simp add: same ensure_dir_frame(4))
qed

subsection \<open>One pass of the runner's loop\<close>

lemma str_includes_append: "str_includes (a @ p @ b) p"
proof (induction a)
  case Nil
  show ?case
  proof (cases "p @ b")
    case Nil
    then show ?thesis by simp
  next
    case (Cons c cs)
    have "prefix p (p @ b)" by simp
    then have "prefix p (c # cs)" unfolding Cons .
    with Cons show ?thesis by simp
  qed
next
  case (Cons c a)
  then show ?case by simp
qed

lemma string_of_nat_429: "string_of_nat 429 = ''429''"
  by (simp add: string_of_nat.simps)

lemma throttled_429: "throttled (Http_error 429 body)"
  using str_includes_append [of "''API Error ''" "''429''" "'': '' @ body"]
  by (simp add: throttled_def error_message_def string_of_nat_429)

lemma no_key_message:
  "\<not> str_includes ''FISH_API_KEY environment variable is required'' ''429''"
  by simp

lemma iteration_exists:
  "file_exists (st_world s) (ChunkMp3 (chunk_id (chunks m ! nat (idx s)))) \<Longrightarrow>
   iteration e m s = s\<lparr>successCount := successCount s + 1, idx := idx s + 1\<rparr>"
  by (simp add: iteration_def)

lemma iteration_throttled:
  assumes "\<not> file_exists (st_world s) (ChunkMp3 (chunk_id (chunks m ! nat (idx s))))"
    and "api_key e"
    and "throttled (tts e (length (exchanges s)))"
  shows "iteration e m s =
     s\<lparr>exchanges := exchanges s @ [(nat (idx s), tts e (length (exchanges s)))],
       st_world := sleep 5000 (st_world s),
       errorCount := errorCount s + 1,
       idx := idx s\<rparr>"
  using assms
  by (simp add: iteration_def textToSpeech_def Let_def throttled_def split: response.splits)

lemma iteration_counts:
  "int (successCount (iteration e m s)) + int (errorCount (iteration e m s))
     - idx (iteration e m s) - int (throttle_count (iteration e m s)) =
   int (successCount s) + int (errorCount s) - idx s - int (throttle_count s)"
  "errorCount s + throttle_count (iteration e m s) \<le> errorCount (iteration e m s) + throttle_count s"
  "idx (iteration e m s) \<le> idx s + 1"
  "set (exchanges s) \<subseteq> set (exchanges (iteration e m s))"
  by (auto simp: iteration_def textToSpeech_def Let_def throttled_def throttle_count_def
      no_key_message split: response.splits)

lemma iteration_keeps_silence:
  "file_exists (st_world s) (SilenceMp3 d) \<Longrightarrow>
   file_exists (st_world (iteration e m s)) (SilenceMp3 d)"
  by (auto simp: iteration_def textToSpeech_def Let_def file_exists_def write_file_def sleep_def
      split: response.splits)

lemma iterations_keep_silences:
  "all_silences (st_world s) \<Longrightarrow> all_silences (st_world ((iteration e m ^^ n) s))"
  by (induction n) (auto simp: all_silences_def list_all_iff iteration_keeps_silence)

lemma iteration_frame:
  assumes "\<forall>c. p \<noteq> ChunkMp3 c"
  shows "files (st_world (iteration e m s)) p = files (st_world s) p"
  using assms
  by (auto simp: iteration_def textToSpeech_def Let_def write_file_def sleep_def
      split: response.splits)

lemma stuck_iteration: "stuck e m s \<Longrightarrow> stuck e m (iteration e m s)"
proof -
  assume s: "stuck e m s"
  then have "iteration e m s =
     s\<lparr>exchanges := exchanges s @ [(nat (idx s), tts e (length (exchanges s)))],
       st_world := sleep 5000 (st_world s),
       errorCount := errorCount s + 1,
       idx := idx s\<rparr>"
    by (intro iteration_throttled) (auto simp: stuck_def)
  with s show ?thesis by (auto simp: stuck_def sleep_def file_exists_def)
qed

lemma iteration_idx_mono: "idx s \<le> idx (iteration e m s)"
  by (auto simp: iteration_def textToSpeech_def Let_def split: response.splits)

lemma iteration_request:
  assumes "\<not> file_exists (st_world s) (ChunkMp3 (chunk_id (chunks m ! nat (idx s))))"
    and "api_key e"
  shows "exchanges (iteration e m s) =
     exchanges s @ [(nat (idx s), tts e (length (exchanges s)))]"
  using assms by (auto simp: iteration_def textToSpeech_def Let_def split: response.splits)

lemma iteration_measure:
  assumes "idx s < int (length (chunks m))" and "\<forall>k\<ge>N. \<not> throttled (tts e k)"
  shows "nat (int (length (chunks m)) - idx (iteration e m s)) +
           (N - length (exchanges (iteration e m s))) <
         nat (int (length (chunks m)) - idx s) + (N - length (exchanges s))"
proof (cases "file_exists (st_world s) (ChunkMp3 (chunk_id (chunks m ! nat (idx s))))")
  case True
  then show ?thesis using assms(1) by (simp add: iteration_exists)
next
  case False
  show ?thesis
  proof (cases "api_key e \<and> throttled (tts e (length (exchanges s)))")
    case True
    with assms(2) have "length (exchanges s) < N" by (meson not_le)
    moreover from True False have "iteration e m s =
       s\<lparr>exchanges := exchanges s @ [(nat (idx s), tts e (length (exchanges s)))],
         st_world := sleep 5000 (st_world s),
         errorCount := errorCount s + 1,
         idx := idx s\<rparr>"
      by (intro iteration_throttled) simp_all
    ultimately show ?thesis by simp
  next
    case nt: False
    then have "idx (iteration e m s) = idx s + 1"
      using False
      by (auto simp: iteration_def textToSpeech_def Let_def throttled_def no_key_message
          split: response.splits)
    moreover have "length (exchanges s) \<le> length (exchanges (iteration e m s))"
      by (auto simp: iteration_def textToSpeech_def Let_def split: response.splits)
    ultimately show ?thesis using assms(1) by simp
  qed
qed

lemma iteration_clips_behind:
  assumes "api_key e" and "\<forall>k. throttled (tts e k) \<or> (\<exists>b. tts e k = Audio b)"
    and "0 \<le> idx s" and "clips_behind m s"
  shows "clips_behind m (iteration e m s)"
proof (cases "file_exists (st_world s) (ChunkMp3 (chunk_id (chunks m ! nat (idx s))))")
  case True
  then have "iteration e m s = s\<lparr>successCount := successCount s + 1, idx := idx s + 1\<rparr>"
    by (rule iteration_exists)
  moreover have "j < nat (idx s + 1) \<Longrightarrow> j < nat (idx s) \<or> j = nat (idx s)" for j
    using assms(3) by auto
  ultimately show ?thesis using assms(4) True by (auto simp: clips_behind_def)
next
  case False
  from assms(2) have ans: "throttled (tts e (length (exchanges s))) \<or>
      (\<exists>b. tts e (length (exchanges s)) = Audio b)" by simp
  then show ?thesis
  proof
    assume "throttled (tts e (length (exchanges s)))"
    with False assms(1) have "iteration e m s =
       s\<lparr>exchanges := exchanges s @ [(nat (idx s), tts e (length (exchanges s)))],
         st_world := sleep 5000 (st_world s),
         errorCount := errorCount s + 1,
         idx := idx s\<rparr>"
      by (intro iteration_throttled)
    with assms(4) show ?thesis by (simp add: clips_behind_def file_exists_def sleep_def)
  next
    assume "\<exists>b. tts e (length (exchanges s)) = Audio b"
    then obtain b where b: "tts e (length (exchanges s)) = Audio b" ..
    have i1: "idx (iteration e m s) = idx s + 1"
      using False assms(1) b by (simp add: iteration_def textToSpeech_def Let_def)
    have f1: "file_exists (st_world (iteration e m s))
        (ChunkMp3 (chunk_id (chunks m ! nat (idx s))))"
      using False assms(1) b
      by (simp add: iteration_def textToSpeech_def Let_def file_exists_def write_file_def sleep_def)
    have keep: "file_exists (st_world s) p \<Longrightarrow> file_exists (st_world (iteration e m s)) p" for p
      using False assms(1) b
      by (simp add: iteration_def textToSpeech_def Let_def file_exists_def write_file_def sleep_def)
    have "j < nat (idx s + 1) \<Longrightarrow> j < nat (idx s) \<or> j = nat (idx s)" for j
      using assms(3) by auto
    with assms(4) i1 f1 keep show ?thesis by (auto simp: clips_behind_def)
  qed
qed

subsection \<open>The runner's loop\<close>

lemma run_loop_counts:
  assumes "run_loop e m s = Some r" and "idx s \<le> int (length (chunks m))"
  shows "idx r = int (length (chunks m)) \<and>
         int (successCount r) + int (errorCount r) - idx r - int (throttle_count r) =
           int (successCount s) + int (errorCount s) - idx s - int (throttle_count s) \<and>
         errorCount s + throttle_count r \<le> errorCount r + throttle_count s \<and>
         set (exchanges s) \<subseteq> set (exchanges r)"
  using assms(2)
proof (induction rule: run_loop.raw_induct [OF _ assms(1)])
  case (1 f e m s r)
  show ?case
  proof (cases "idx s < int (length (chunks m))")
    case True
    with "1.hyps" have run: "f e m (iteration e m s) = Some r" by simp
    from True iteration_counts(3) [where e = e and m = m and s = s]
    have "idx (iteration e m s) \<le> int (length (chunks m))" by simp
    from "1.IH" [OF run this] iteration_counts [where e = e and m = m and s = s] show ?thesis by auto
  next
    case False
    with "1.hyps" have "r = s" by simp
    with False "1.prems" show ?thesis by simp
  qed
qed

lemma run_loop_keeps_silences:
  assumes "run_loop e m s = Some r" and "all_silences (st_world s)"
  shows "all_silences (st_world r)"
  using assms(2)
proof (induction rule: run_loop.raw_induct [OF _ assms(1)])
  case (1 f e m s r)
  show ?case
  proof (cases "idx s < int (length (chunks m))")
    case True
    with "1.hyps" have run: "f e m (iteration e m s) = Some r" by simp
    from "1.prems" have "all_silences (st_world ((iteration e m ^^ 1) s))"
      by (rule iterations_keep_silences)
    then have "all_silences (st_world (iteration e m s))" by simp
    with run show ?thesis by (rule "1.IH")
  next
    case False
    with "1.hyps" have "r = s" by simp
    with "1.prems" show ?thesis by simp
  qed
qed

lemma run_loop_frame:
  assumes "run_loop e m s = Some r" and "\<forall>c. p \<noteq> ChunkMp3 c"
  shows "files (st_world r) p = files (st_world s) p"
proof (induction rule: run_loop.raw_induct [OF _ assms(1)])
  case (1 f e m s r)
  show ?case
  proof (cases "idx s < int (length (chunks m))")
    case True
    with "1.hyps" have "f e m (iteration e m s) = Some r" by simp
    then have "files (st_world r) p = files (st_world (iteration e m s)) p" by (rule "1.IH")
    with assms(2) show ?thesis by (simp add: iteration_frame)
  next
    case False
    with "1.hyps" show ?thesis by simp
  qed
qed

lemma run_loop_all_exist:
  assumes "0 \<le> idx s" and "idx s \<le> int (length (chunks m))"
    and "\<forall>j < length (chunks m). file_exists (st_world s) (ChunkMp3 (chunk_id (chunks m ! j)))"
  shows "run_loop e m s =
     Some (s\<lparr>successCount := successCount s + (length (chunks m) - nat (idx s)),
             idx := int (length (chunks m))\<rparr>)"
  using assms
proof (induction "length (chunks m) - nat (idx s)" arbitrary: s)
  case 0
  then have "idx s = int (length (chunks m))" by simp
  then show ?case by (subst run_loop.simps) simp
next
  case (Suc n)
  from Suc.hyps(2) Suc.prems have lt: "idx s < int (length (chunks m))" by simp
  with Suc.prems have "nat (idx s) < length (chunks m)" by simp
  with Suc.prems have ex: "file_exists (st_world s) (ChunkMp3 (chunk_id (chunks m ! nat (idx s))))"
    by simp
  let ?s' = "s\<lparr>successCount := successCount s + 1, idx := idx s + 1\<rparr>"
  have it: "iteration e m s = ?s'" using ex by (rule iteration_exists)
  have n: "n = length (chunks m) - nat (idx ?s')" using Suc.hyps(2) Suc.prems(1) by simp
  have "run_loop e m ?s' =
     Some (?s'\<lparr>successCount := successCount ?s' + (length (chunks m) - nat (idx ?s')),
             idx := int (length (chunks m))\<rparr>)"
    using n Suc.prems lt by (intro Suc.hyps(1)) simp_all
  moreover have "successCount s + 1 + (length (chunks m) - nat (idx s + 1)) =
      successCount s + (length (chunks m) - nat (idx s))"
    using lt Suc.prems(1) by simp
  ultimately show ?case
    using lt by (subst run_loop.simps) (simp add: it)
qed

lemma run_loop_not_stuck:
  assumes "run_loop e m s = Some r"
  shows "\<not> stuck e m s"
proof (induction rule: run_loop.raw_induct [OF _ assms])
  case (1 f e m s r)
  show ?case
  proof
    assume st: "stuck e m s"
    then have "idx s < int (length (chunks m))" by (simp add: stuck_def)
    with "1.hyps" have "f e m (iteration e m s) = Some r" by simp
    then have "\<not> stuck e m (iteration e m s)" by (rule "1.IH")
    with stuck_iteration [OF st] show False by simp
  qed
qed

lemma run_loop_stuck: "stuck e m s \<Longrightarrow> run_loop e m s = None"
  using run_loop_not_stuck [of e m s] by (cases "run_loop e m s") auto

lemma run_loop_throttled_none:
  assumes "api_key e" and "0 \<le> idx s" and "nat (idx s) \<le> j" and "j < length (chunks m)"
    and "\<not> file_exists (st_world s) (ChunkMp3 (chunk_id (chunks m ! j)))"
    and "\<forall>k \<ge> length (exchanges s). throttled (tts e k)"
  shows "run_loop e m s = None"
  using assms(2-)
proof (induction "j - nat (idx s)" arbitrary: s)
  case 0
  then have "nat (idx s) = j" by simp
  with 0 assms(1) have "stuck e m s" by (auto simp: stuck_def)
  then show ?case by (rule run_loop_stuck)
next
  case (Suc n)
  show ?case
  proof (cases "file_exists (st_world s) (ChunkMp3 (chunk_id (chunks m ! nat (idx s))))")
    case False
    with Suc.prems assms(1) have "stuck e m s" by (auto simp: stuck_def)
    then show ?thesis by (rule run_loop_stuck)
  next
    case True
    let ?s' = "s\<lparr>successCount := successCount s + 1, idx := idx s + 1\<rparr>"
    have it: "iteration e m s = ?s'" using True by (rule iteration_exists)
    from Suc.hyps(2) Suc.prems have lt: "idx s < int (length (chunks m))" by simp
    have "run_loop e m ?s' = None"
    proof (rule Suc.hyps(1))
      show "n = j - nat (idx ?s')" using Suc.hyps(2) Suc.prems(1) by simp
      show "0 \<le> idx ?s'" using Suc.prems(1) by simp
      show "nat (idx ?s') \<le> j" using Suc.hyps(2) Suc.prems(1) by simp
      show "j < length (chunks m)" by (rule Suc.prems(3))
      show "\<not> file_exists (st_world ?s') (ChunkMp3 (chunk_id (chunks m ! j)))"
        using Suc.prems(4) by simp
      show "\<forall>k\<ge>length (exchanges ?s'). throttled (tts e k)"
        using Suc.prems(5) by simp
    qed
    with lt show ?thesis by (subst run_loop.simps) (simp add: it)
  qed
qed

lemma generateChapterAudio_run:
  assumes "read_manifest w = Inr m"
    and "generateAllSilences e (ensure_dir ChunksDir w) = Inr w1"
  shows "generateChapterAudio e w = map_option Inr (run_loop e m (init_state w1))"
    and "all_silences w1"
    and "\<And>c. files w1 (ChunkMp3 c) = files w (ChunkMp3 c)"
    and "slept w1 = slept w"
proof -
  show "generateChapterAudio e w = map_option Inr (run_loop e m (init_state w1))"
    by (simp add: generateChapterAudio_def assms)
  note f = generateAllSilences_frame [OF assms(2)]
  show "all_silences w1" by (rule f(1))
  show "\<And>c. files w1 (ChunkMp3 c) = files w (ChunkMp3 c)"
    by (simp add: f(2) ensure_dir_frame(2))
  show "slept w1 = slept w" by (simp add: f(4) ensure_dir_frame(3))
qed

lemma generateChapterAudio_throttled:
  assumes m: "read_manifest w = Inr m"
    and key: "api_key e"
    and sil: "\<forall>d\<in>set durations. file_exists w (SilenceMp3 d) \<or> make_silence e d = Tool_ok"
    and miss: "\<exists>c\<in>set (chunks m). \<not> file_exists w (ChunkMp3 (chunk_id c))"
    and thr: "\<forall>k. throttled (tts e k)"
  shows "generateChapterAudio e w = None"
proof -
  from provisioning_succeeds [OF sil] obtain w1
    where w1: "generateAllSilences e (ensure_dir ChunksDir w) = Inr w1" ..
  note run = generateChapterAudio_run [OF m w1]
  from miss obtain j where j: "j < length (chunks m)"
    and nj: "\<not> file_exists w (ChunkMp3 (chunk_id (chunks m ! j)))"
    by (auto simp: in_set_conv_nth)
  have "run_loop e m (init_state w1) = None"
  proof (rule run_loop_throttled_none [OF key _ _ j])
    show "0 \<le> idx (init_state w1)" by (simp add: init_state_def)
    show "nat (idx (init_state w1)) \<le> j" by (simp add: init_state_def)
    show "\<not> file_exists (st_world (init_state w1)) (ChunkMp3 (chunk_id (chunks m ! j)))"
      using nj by (simp add: init_state_def file_exists_def run(3))
    show "\<forall>k\<ge>length (exchanges (init_state w1)). throttled (tts e k)"
      using thr by simp
  qed
  with run(1) show ?thesis by simp
qed

lemma after_run:
  assumes m: "read_manifest w = Inr m"
    and run: "generateChapterAudio e w = Some (Inr r)"
  shows "read_manifest (st_world r) = Inr m" and "all_silences (st_world r)"
proof -
  from m run obtain w1 where w1: "generateAllSilences e (ensure_dir ChunksDir w) = Inr w1"
    and l: "run_loop e m (init_state w1) = Some r"
    by (auto simp: generateChapterAudio_def split: sum.splits)
  note f = generateAllSilences_frame [OF w1]
  have "files (st_world r) ChunksJson = files (st_world (init_state w1)) ChunksJson"
    using l by (rule run_loop_frame) simp
  also have "\<dots> = files w ChunksJson"
    by (simp add: init_state_def f(3) ensure_dir_frame(2))
  finally have "read_manifest (st_world r) = read_manifest w" by (simp add: read_manifest_def)
  with m show "read_manifest (st_world r) = Inr m" by simp
  from f(1) have "all_silences (st_world (init_state w1))" by (simp add: init_state_def)
  with l show "all_silences (st_world r)" by (rule run_loop_keeps_silences)
qed

lemma rerun_all_exist:
  assumes m: "read_manifest w = Inr m"
    and clips: "\<forall>c\<in>set (chunks m). file_exists w (ChunkMp3 (chunk_id c))"
    and sil: "\<forall>d\<in>set durations. file_exists w (SilenceMp3 d) \<or> make_silence e d = Tool_ok"
  shows "\<exists>r. generateChapterAudio e w = Some (Inr r) \<and>
             exchanges r = [] \<and>
             successCount r = length (chunks m) \<and>
             errorCount r = 0 \<and>
             (\<forall>c. files (st_world r) (ChunkMp3 c) = files w (ChunkMp3 c)) \<and>
             slept (st_world r) = slept w \<and>
             generate_main e w = Some (0, st_world r)"
proof -
  from provisioning_succeeds [OF sil] obtain w1
    where w1: "generateAllSilences e (ensure_dir ChunksDir w) = Inr w1" ..
  note run = generateChapterAudio_run [OF m w1]
  let ?r = "(init_state w1)\<lparr>successCount := successCount (init_state w1) +
                (length (chunks m) - nat (idx (init_state w1))),
              idx := int (length (chunks m))\<rparr>"
  have "run_loop e m (init_state w1) = Some ?r"
  proof (rule run_loop_all_exist)
    show "0 \<le> idx (init_state w1)" by (simp add: init_state_def)
    show "idx (init_state w1) \<le> int (length (chunks m))" by (simp add: init_state_def)
    show "\<forall>j<length (chunks m).
        file_exists (st_world (init_state w1)) (ChunkMp3 (chunk_id (chunks m ! j)))"
      using clips by (simp add: init_state_def file_exists_def run(3))
  qed
  with run(1) have g: "generateChapterAudio e w = Some (Inr ?r)" by simp
  have "exchanges ?r = []" "successCount ?r = length (chunks m)" "errorCount ?r = 0"
    "\<forall>c. files (st_world ?r) (ChunkMp3 c) = files w (ChunkMp3 c)"
    "slept (st_world ?r) = slept w"
    by (simp_all add: init_state_def run(3) run(4))
  moreover have "generate_main e w = Some (0, st_world ?r)"
    by (simp add: generate_main_def g init_state_def)
  ultimately show ?thesis using g by blast
qed

lemma run_loop_returns:
  assumes "\<forall>k\<ge>N. \<not> throttled (tts e k)"
  shows "\<exists>r. run_loop e m s = Some r"
proof (induction "nat (int (length (chunks m)) - idx s) + (N - length (exchanges s))"
    arbitrary: s rule: less_induct)
  case less
  show ?case
  proof (cases "idx s < int (length (chunks m))")
    case True
    from iteration_measure [OF True assms]
    have "\<exists>r. run_loop e m (iteration e m s) = Some r" by (rule less.hyps)
    with True show ?thesis by (subst run_loop.simps) simp
  next
    case False
    then show ?thesis by (subst run_loop.simps) simp
  qed
qed

lemma first_request_logged:
  assumes "api_key e" and "j < length (chunks m)"
    and "run_loop e m s = Some r" and "exchanges s = []" and "0 \<le> idx s" and "nat (idx s) \<le> j"
    and "\<not> file_exists (st_world s) (ChunkMp3 (chunk_id (chunks m ! j)))"
  shows "\<exists>u. (u, tts e 0) \<in> set (exchanges r)"
  using assms(3-)
proof (induction "j - nat (idx s)" arbitrary: s)
  case 0
  then have eq: "nat (idx s) = j" by simp
  from 0 assms(2) have lt: "idx s < int (length (chunks m))" by simp
  with "0.prems"(1) have run: "run_loop e m (iteration e m s) = Some r"
    by (subst (asm) run_loop.simps) simp
  have "exchanges (iteration e m s) = exchanges s @ [(nat (idx s), tts e (length (exchanges s)))]"
    using "0.prems"(5) assms(1) unfolding eq [symmetric] by (rule iteration_request)
  then have "(j, tts e 0) \<in> set (exchanges (iteration e m s))"
    using "0.prems"(2) eq by simp
  moreover have "idx (iteration e m s) \<le> int (length (chunks m))"
    using lt iteration_counts(3) [where e = e and m = m and s = s] by simp
  ultimately show ?case using run_loop_counts [OF run] by blast
next
  case (Suc n)
  from Suc.prems assms(2) have lt: "idx s < int (length (chunks m))" by simp
  with Suc.prems(1) have run: "run_loop e m (iteration e m s) = Some r"
    by (subst (asm) run_loop.simps) simp
  show ?case
  proof (cases "file_exists (st_world s) (ChunkMp3 (chunk_id (chunks m ! nat (idx s))))")
    case True
    let ?s' = "s\<lparr>successCount := successCount s + 1, idx := idx s + 1\<rparr>"
    have it: "iteration e m s = ?s'" using True by (rule iteration_exists)
    show ?thesis
    proof (rule Suc.hyps(1))
      show "n = j - nat (idx ?s')" using Suc.hyps(2) Suc.prems(3) by simp
      show "run_loop e m ?s' = Some r" using run it by simp
      show "exchanges ?s' = []" using Suc.prems(2) by simp
      show "0 \<le> idx ?s'" using Suc.prems(3) by simp
      show "nat (idx ?s') \<le> j" using Suc.hyps(2) Suc.prems(3) by simp
      show "\<not> file_exists (st_world ?s') (ChunkMp3 (chunk_id (chunks m ! j)))"
        using Suc.prems(5) by simp
    qed
  next
    case False
    then have "exchanges (iteration e m s) =
        exchanges s @ [(nat (idx s), tts e (length (exchanges s)))]"
      using assms(1) by (rule iteration_request)
    then have "(nat (idx s), tts e 0) \<in> set (exchanges (iteration e m s))"
      using Suc.prems(2) by simp
    moreover have "idx (iteration e m s) \<le> int (length (chunks m))"
      using lt iteration_counts(3) [where e = e and m = m and s = s] by simp
    ultimately show ?thesis using run_loop_counts [OF run] by blast
  qed
qed

lemma run_loop_clips_behind:
  assumes "run_loop e m s = Some r"
    and "api_key e" and "\<forall>k. throttled (tts e k) \<or> (\<exists>b. tts e k = Audio b)"
    and "0 \<le> idx s" and "clips_behind m s"
  shows "clips_behind m r"
  using assms(2-)
proof (induction rule: run_loop.raw_induct [OF _ assms(1)])
  case (1 f e m s r)
  show ?case
  proof (cases "idx s < int (length (chunks m))")
    case True
    with "1.hyps" have run: "f e m (iteration e m s) = Some r" by simp
    have "0 \<le> idx (iteration e m s)"
      using "1.prems"(3) iteration_idx_mono [of s e m] by simp
    moreover have "clips_behind m (iteration e m s)"
      using "1.prems" by (intro iteration_clips_behind)
    ultimately show ?thesis using "1.prems"(1,2) by (intro "1.IH" [OF run])
  next
    case False
    with "1.hyps" have "r = s" by simp
    with "1.prems" show ?thesis by simp
  qed
qed

subsection \<open>The examples, evaluated\<close>

lemmas eval_clean = cleanText_def match_term_def match_ref_def trim_def is_space_def

lemmas eval_plan = surviving_def tagged_blocks_def section_blocks_def survives_def pause_policy_def
  par_def quo_def

lemmas eval_world = read_manifest_def file_exists_def manifest_3_def mk_chunk_def

lemma world_ready_files: "files world_ready = map_of
        [(ChunksJson, Manifest manifest_3), (ChunksDir, Directory), (SilencesDir, Directory),
         (ChunkMp3 ''ch1-chunk-000'', Speech [0]),
         (ChunkMp3 ''ch1-chunk-001'', Speech [1]),
         (ChunkMp3 ''ch1-chunk-002'', Speech [2]),
         (SilenceMp3 0.8, SilentAudio 0.8), (SilenceMp3 1.5, SilentAudio 1.5),
         (SilenceMp3 2.0, SilentAudio 2.0), (SilenceMp3 2.5, SilentAudio 2.5),
         (SilenceMp3 3.0, SilentAudio 3.0),
         (FinalMp3, Joined [ChunkMp3 ''ch1-chunk-000''])]"
  by (simp add: world_ready_def)

lemma world_two_missing_files: "files world_two_missing = map_of
        [(ChunksJson, Manifest manifest_3), (ChunksDir, Directory), (SilencesDir, Directory),
         (ChunkMp3 ''ch1-chunk-000'', Speech [0]),
         (SilenceMp3 0.8, SilentAudio 0.8), (SilenceMp3 2.0, SilentAudio 2.0)]"
  by (simp add: world_two_missing_def)

lemma world_no_silence_files: "files world_no_silence = map_of
        [(ChunksJson, Manifest manifest_3), (ChunksDir, Directory),
         (ChunkMp3 ''ch1-chunk-000'', Speech [0]),
         (ChunkMp3 ''ch1-chunk-001'', Speech [1])]"
  by (simp add: world_no_silence_def)

lemma world_fresh_files: "files world_fresh = map_of [(ChunksJson, Manifest manifest_3)]"
  by (simp add: world_fresh_def)

lemma world_one_left_files: "files world_one_left = map_of
        [(ChunksJson, Manifest manifest_3), (ChunksDir, Directory), (SilencesDir, Directory),
         (ChunkMp3 ''ch1-chunk-000'', Speech [0]),
         (ChunkMp3 ''ch1-chunk-001'', Speech [1]),
         (SilenceMp3 0.8, SilentAudio 0.8), (SilenceMp3 1.5, SilentAudio 1.5),
         (SilenceMp3 2.0, SilentAudio 2.0), (SilenceMp3 2.5, SilentAudio 2.5),
         (SilenceMp3 3.0, SilentAudio 3.0)]"
  by (simp add: world_one_left_def)

lemma provision_ready: "generateAllSilences e world_ready = Inr world_ready"
  by (simp add: generateAllSilences_def durations_def generateSilence_def ensure_dir_def
      file_exists_def world_ready_files)

lemma provision_one_left: "generateAllSilences e world_one_left = Inr world_one_left"
  by (simp add: generateAllSilences_def durations_def generateSilence_def ensure_dir_def
      file_exists_def world_one_left_files)

lemma run_ready:
  "generateChapterAudio env_ok world_ready = Some (Inr state_after_rerun)"
proof -
  have m: "read_manifest world_ready = Inr manifest_3"
    by (simp add: read_manifest_def world_ready_files)
  have d: "ensure_dir ChunksDir world_ready = world_ready"
    by (simp add: ensure_dir_def file_exists_def world_ready_files)
  have "run_loop env_ok manifest_3 (init_state world_ready) = Some state_after_rerun"
    by (simp add: run_loop.simps iteration_def init_state_def file_exists_def world_ready_files
        manifest_3_def mk_chunk_def state_after_rerun_def)
  then show ?thesis by (simp add: generateChapterAudio_def m d provision_ready)
qed

lemma run_one_left:
  "generateChapterAudio env_throttled_once world_one_left = Some (Inr state_after_retry)"
proof -
  have m: "read_manifest world_one_left = Inr manifest_3"
    by (simp add: read_manifest_def world_one_left_files)
  have d: "ensure_dir ChunksDir world_one_left = world_one_left"
    by (simp add: ensure_dir_def file_exists_def world_one_left_files)
  have "run_loop env_throttled_once manifest_3 (init_state world_one_left) = Some state_after_retry"
    by (simp add: run_loop.simps iteration_def textToSpeech_def init_state_def file_exists_def
        world_one_left_files
        manifest_3_def mk_chunk_def state_after_retry_def env_throttled_once_def
        error_message_def string_of_nat.simps sleep_def write_file_def DELAY_BETWEEN_REQUESTS_def)
  then show ?thesis by (simp add: generateChapterAudio_def m d provision_one_left)
qed

subsection \<open>The planner\<close>

text \<open>
  \<^bold>\<open>C1\<close>. For every chapter document, the pauses of the planner's units are, in order:
  the title-level pause of 2.0 s for the leading intro unit, and for every block that
  survives cleaning, in document order, the pause of \<open>pause_policy\<close>: 3.0 s when the block
  is the last block of the last section, whatever its type; otherwise 2.5 s when it is the
  last block of its section, whatever its type; otherwise 1.5 s for a quote and 0.8 s for
  a paragraph (and for any other type that is not \<^verbatim>\<open>quote\<close>).
\<close>

theorem planner_pause_precedence:
  "map pauseAfter (chunks (prepareChapterChunks cn lng ch)) = 2.0 # map pause_policy (surviving ch)"
  by (simp add: chunks_prepareChapterChunks pauseAfter_units_from intro_chunk_def afterTitle_def)

text \<open>The scenario of the specification: two paragraphs in the first section, one in the
  last.\<close>

theorem planner_pause_precedence_witness:
  "map pauseAfter (chunks (prepareChapterChunks 1 ''en'' chapter_A)) = [2.0, 0.8, 2.5, 3.0]"
  using planner_pause_precedence [of 1 "''en''" chapter_A]
  by (simp add: chapter_A_def eval_plan eval_clean)

text \<open>
  \<^bold>\<open>C6\<close>. A block whose cleaned text is empty leaves the planner's state as it is: no
  unit is appended and the counter of ids does not move. So the units are the intro and
  one unit per surviving block, their texts the cleaned texts in document order, and the
  id of the \<open>k\<close>-th unit is made of the ordinal \<open>k\<close>, counting from 0 with no gap; the
  manifest's \<^verbatim>\<open>totalChunks\<close> is the number of units.
\<close>

theorem planner_ids:
  "(cleanText (block_text b) = [] \<longrightarrow> process_block cn ls lb b st = st) \<and>
   map chunk_id (chunks (prepareChapterChunks cn lng ch)) =
     map (make_id cn) [0..<length (chunks (prepareChapterChunks cn lng ch))] \<and>
   length (chunks (prepareChapterChunks cn lng ch)) = Suc (length (surviving ch)) \<and>
   map chunk_text (tl (chunks (prepareChapterChunks cn lng ch))) =
     map (\<lambda>t. cleanText (block_text (fst t))) (surviving ch) \<and>
   totalChunks (prepareChapterChunks cn lng ch) = length (chunks (prepareChapterChunks cn lng ch))"
proof -
  have a: "cleanText (block_text b) = [] \<longrightarrow> process_block cn ls lb b st = st"
    by (simp add: process_block_def)
  have "[0..<Suc n] = 0 # [1..<Suc n]" for n
    by (simp add: upt_conv_Cons del: upt_Suc)
  moreover have "map chunk_id (units_from cn 1 ts) = map (make_id cn) [1..<Suc (length ts)]" for ts
    using chunk_id_units_from [of cn 1 ts] by simp
  ultimately have b: "map chunk_id (chunks (prepareChapterChunks cn lng ch)) =
     map (make_id cn) [0..<length (chunks (prepareChapterChunks cn lng ch))]"
    by (simp add: chunks_prepareChapterChunks length_units_from intro_id del: upt_Suc)
  have c: "length (chunks (prepareChapterChunks cn lng ch)) = Suc (length (surviving ch))"
    by (simp add: chunks_prepareChapterChunks length_units_from)
  have "map chunk_text (units_from cn k ts) = map (\<lambda>t. cleanText (block_text (fst t))) ts" for k ts
    by (induction ts arbitrary: k) (simp_all add: units_from_Nil units_from_Cons unit_of_def)
  then have d: "map chunk_text (tl (chunks (prepareChapterChunks cn lng ch))) =
     map (\<lambda>t. cleanText (block_text (fst t))) (surviving ch)"
    by (simp add: chunks_prepareChapterChunks)
  have e: "totalChunks (prepareChapterChunks cn lng ch) = length (chunks (prepareChapterChunks cn lng ch))"
    by (simp add: prepareChapterChunks_def Let_def)
  from a b c d e show ?thesis by blast
qed

theorem planner_ids_witness:
  "cleanText (block_text (par '' {ref:n1} <em></em> '')) = [] \<and>
   process_block 2 False False (par '' {ref:n1} <em></em> '') ([], 2) = ([], 2) \<and>
   map chunk_id (chunks (prepareChapterChunks 2 ''es'' chapter_B)) =
     [''ch2-chunk-000'', ''ch2-chunk-001'', ''ch2-chunk-002'', ''ch2-chunk-003'']"
proof -
  have e: "cleanText (block_text (par '' {ref:n1} <em></em> '')) = []"
    by (simp add: par_def eval_clean)
  have s: "length (surviving chapter_B) = 3"
    by (simp add: chapter_B_def eval_plan eval_clean)
  have m: "map (make_id 2) [0..<4] = [''ch2-chunk-000'', ''ch2-chunk-001'', ''ch2-chunk-002'', ''ch2-chunk-003'']"
    by (simp add: upt_rec make_id_def padStart_def string_of_nat.simps replicate_3)
  from planner_ids [of "par '' {ref:n1} <em></em> ''" 2 False False "([], 2)" "''es''" chapter_B] e s m
  show ?thesis by simp
qed

text \<open>
  \<^bold>\<open>C10\<close>. The overrides look at a block's position in the document. When the last block
  of the last section cleans to the empty text, no unit has the chapter-end pause of
  3.0 s: every unit made of a block keeps the pause of its own position, and the pause of
  the last unit is 0.8, 1.5 or 2.5 s (or the intro's 2.0 s when no block survives at all).
\<close>

theorem planner_skipped_last_block:
  assumes "sections ch \<noteq> []"
    and "content (last (sections ch)) \<noteq> []"
    and "cleanText (block_text (last (content (last (sections ch))))) = []"
  shows "3.0 \<notin> set (map pauseAfter (chunks (prepareChapterChunks cn lng ch))) \<and>
         map pauseAfter (tl (chunks (prepareChapterChunks cn lng ch))) =
           map pause_policy (surviving ch) \<and>
         pauseAfter (last (chunks (prepareChapterChunks cn lng ch))) =
           (if surviving ch = [] then 2.0 else pause_policy (last (surviving ch))) \<and>
         pauseAfter (last (chunks (prepareChapterChunks cn lng ch))) \<in> {2.0, 0.8, 1.5, 2.5}"
proof -
  let ?cs = "chunks (prepareChapterChunks cn lng ch)"
  have cs: "map pauseAfter ?cs = 2.0 # map pause_policy (surviving ch)"
    by (simp add: chunks_prepareChapterChunks pauseAfter_units_from intro_chunk_def afterTitle_def)
  have no3: "\<And>t. t \<in> set (surviving ch) \<Longrightarrow> pause_policy t \<noteq> 3.0"
    using assms(3) by (rule surviving_not_chapter_end)
  have c1: "3.0 \<notin> set (map pauseAfter ?cs)"
    unfolding cs using no3 by auto
  have c2: "map pauseAfter (tl ?cs) = map pause_policy (surviving ch)"
    using cs by (simp add: map_tl)
  have ne: "?cs \<noteq> []" by (simp add: chunks_prepareChapterChunks)
  have "pauseAfter (last ?cs) = last (map pauseAfter ?cs)"
    using ne by (simp add: last_map)
  also have "\<dots> = (if surviving ch = [] then 2.0 else pause_policy (last (surviving ch)))"
    unfolding cs by (simp add: last_map)
  finally have c3: "pauseAfter (last ?cs) =
      (if surviving ch = [] then 2.0 else pause_policy (last (surviving ch)))" .
  have c4: "pauseAfter (last ?cs) \<in> {2.0, 0.8, 1.5, 2.5}"
  proof (cases "surviving ch = []")
    case True
    with c3 show ?thesis by simp
  next
    case False
    then have "last (surviving ch) \<in> set (surviving ch)" by simp
    from no3 [OF this] pause_policy_values [of "last (surviving ch)"] c3 False
    show ?thesis by auto
  qed
  from c1 c2 c3 c4 show ?thesis by blast
qed

theorem planner_skipped_last_block_witness:
  "sections chapter_B \<noteq> [] \<and> content (last (sections chapter_B)) \<noteq> [] \<and>
   cleanText (block_text (last (content (last (sections chapter_B))))) = [] \<and>
   3.0 \<notin> set (map pauseAfter (chunks (prepareChapterChunks 2 ''es'' chapter_B))) \<and>
   map pauseAfter (chunks (prepareChapterChunks 2 ''es'' chapter_B)) = [2.0, 1.5, 2.5, 0.8]"
proof -
  have h1: "sections chapter_B \<noteq> []" by (simp add: chapter_B_def)
  have h2: "content (last (sections chapter_B)) \<noteq> []" by (simp add: chapter_B_def)
  have h3: "cleanText (block_text (last (content (last (sections chapter_B))))) = []"
    by (simp add: chapter_B_def quo_def eval_clean)
  have s: "map pause_policy (surviving chapter_B) = [1.5, 2.5, 0.8]"
    by (simp add: chapter_B_def eval_plan eval_clean)
  have p: "map pauseAfter (chunks (prepareChapterChunks 2 ''es'' chapter_B)) = [2.0, 1.5, 2.5, 0.8]"
    by (simp add: chunks_prepareChapterChunks pauseAfter_units_from s intro_chunk_def afterTitle_def)
  from planner_skipped_last_block [OF h1 h2 h3, of 2 "''es''"] h1 h2 h3 p
  show ?thesis by simp
qed

subsection \<open>The synthesis runner\<close>

text \<open>
  \<^bold>\<open>C3\<close>. For every manifest whose \<^verbatim>\<open>totalChunks\<close> is the number of its units: when every
  unit's clip is on disk and the silence files are there or can be made, the runner sends no
  request to the speech service, counts every unit as a success (\<^verbatim>\<open>successCount\<close> is
  \<^verbatim>\<open>totalChunks\<close>, \<^verbatim>\<open>errorCount\<close> is zero), leaves every clip as it was and the process exits
  with status 0. In particular this is what a second run does in the world an earlier run has
  left with every clip on disk, whatever the speech service and ffmpeg would answer now: the
  earlier run has made the silence files.
\<close>

theorem runner_rerun:
  assumes m: "read_manifest w = Inr m"
    and wf: "totalChunks m = length (chunks m)"
  shows "((\<forall>c\<in>set (chunks m). file_exists w (ChunkMp3 (chunk_id c))) \<and>
          (\<forall>d\<in>set durations. file_exists w (SilenceMp3 d) \<or> make_silence e d = Tool_ok) \<longrightarrow>
            (\<exists>r. generateChapterAudio e w = Some (Inr r) \<and>
                 exchanges r = [] \<and> successCount r = totalChunks m \<and> errorCount r = 0 \<and>
                 (\<forall>c. files (st_world r) (ChunkMp3 c) = files w (ChunkMp3 c)) \<and>
                 generate_main e w = Some (0, st_world r))) \<and>
         (generateChapterAudio e w = Some (Inr r1) \<and>
          (\<forall>c\<in>set (chunks m). file_exists (st_world r1) (ChunkMp3 (chunk_id c))) \<longrightarrow>
            (\<exists>r. generateChapterAudio e2 (st_world r1) = Some (Inr r) \<and>
                 exchanges r = [] \<and> successCount r = totalChunks m \<and> errorCount r = 0 \<and>
                 (\<forall>c. files (st_world r) (ChunkMp3 c) = files (st_world r1) (ChunkMp3 c)) \<and>
                 generate_main e2 (st_world r1) = Some (0, st_world r)))"
proof (intro conjI impI)
  assume h: "(\<forall>c\<in>set (chunks m). file_exists w (ChunkMp3 (chunk_id c))) \<and>
          (\<forall>d\<in>set durations. file_exists w (SilenceMp3 d) \<or> make_silence e d = Tool_ok)"
  then have clips: "\<forall>c\<in>set (chunks m). file_exists w (ChunkMp3 (chunk_id c))"
    and sil: "\<forall>d\<in>set durations. file_exists w (SilenceMp3 d) \<or> make_silence e d = Tool_ok"
    by simp_all
  from rerun_all_exist [OF m clips sil] wf
  show "\<exists>r. generateChapterAudio e w = Some (Inr r) \<and>
                 exchanges r = [] \<and> successCount r = totalChunks m \<and> errorCount r = 0 \<and>
                 (\<forall>c. files (st_world r) (ChunkMp3 c) = files w (ChunkMp3 c)) \<and>
                 generate_main e w = Some (0, st_world r)"
    by auto
next
  assume h: "generateChapterAudio e w = Some (Inr r1) \<and>
          (\<forall>c\<in>set (chunks m). file_exists (st_world r1) (ChunkMp3 (chunk_id c)))"
  then have first: "generateChapterAudio e w = Some (Inr r1)"
    and clips: "\<forall>c\<in>set (chunks m). file_exists (st_world r1) (ChunkMp3 (chunk_id c))"
    by simp_all
  note a = after_run [OF m first]
  from a(2) have sil: "\<forall>d\<in>set durations. file_exists (st_world r1) (SilenceMp3 d) \<or>
      make_silence e2 d = Tool_ok"
    by (simp add: all_silences_def list_all_iff)
  from rerun_all_exist [OF a(1) clips sil] wf
  show "\<exists>r. generateChapterAudio e2 (st_world r1) = Some (Inr r) \<and>
                 exchanges r = [] \<and> successCount r = totalChunks m \<and> errorCount r = 0 \<and>
                 (\<forall>c. files (st_world r) (ChunkMp3 c) = files (st_world r1) (ChunkMp3 c)) \<and>
                 generate_main e2 (st_world r1) = Some (0, st_world r)"
    by auto
qed

theorem runner_rerun_witness:
  "read_manifest world_one_left = Inr manifest_3 \<and>
   totalChunks manifest_3 = length (chunks manifest_3) \<and>
   generateChapterAudio env_throttled_once world_one_left = Some (Inr state_after_retry) \<and>
   (\<exists>r. generateChapterAudio env_throttled (st_world state_after_retry) = Some (Inr r) \<and>
        exchanges r = [] \<and> successCount r = 3 \<and> errorCount r = 0 \<and>
        generate_main env_throttled (st_world state_after_retry) = Some (0, st_world r)) \<and>
   read_manifest world_ready = Inr manifest_3 \<and>
   (\<exists>r. generateChapterAudio env_ok world_ready = Some (Inr r) \<and>
        exchanges r = [] \<and> successCount r = 3 \<and> errorCount r = 0 \<and>
        generate_main env_ok world_ready = Some (0, st_world r))"
proof -
  have m1: "read_manifest world_one_left = Inr manifest_3"
    by (simp add: read_manifest_def world_one_left_files)
  have m2: "read_manifest world_ready = Inr manifest_3"
    by (simp add: read_manifest_def world_ready_files)
  have wf: "totalChunks manifest_3 = length (chunks manifest_3)"
    by (simp add: manifest_3_def)
  have t: "totalChunks manifest_3 = 3" by (simp add: manifest_3_def)
  have clips1: "\<forall>c\<in>set (chunks manifest_3).
      file_exists (st_world state_after_retry) (ChunkMp3 (chunk_id c))"
    by (simp add: state_after_retry_def file_exists_def write_file_def sleep_def
        world_one_left_files manifest_3_def mk_chunk_def)
  have clips2: "\<forall>c\<in>set (chunks manifest_3). file_exists world_ready (ChunkMp3 (chunk_id c))"
    by (simp add: file_exists_def world_ready_files manifest_3_def mk_chunk_def)
  have sil2: "\<forall>d\<in>set durations. file_exists world_ready (SilenceMp3 d) \<or>
      make_silence env_ok d = Tool_ok"
    by (simp add: env_ok_def)
  from runner_rerun [OF m1 wf, of env_throttled_once state_after_retry env_throttled]
    run_one_left clips1 t
  have a: "\<exists>r. generateChapterAudio env_throttled (st_world state_after_retry) = Some (Inr r) \<and>
        exchanges r = [] \<and> successCount r = 3 \<and> errorCount r = 0 \<and>
        generate_main env_throttled (st_world state_after_retry) = Some (0, st_world r)"
    by auto
  from runner_rerun [OF m2 wf, of env_ok state_after_rerun env_ok] clips2 sil2 t
  have b: "\<exists>r. generateChapterAudio env_ok world_ready = Some (Inr r) \<and>
        exchanges r = [] \<and> successCount r = 3 \<and> errorCount r = 0 \<and>
        generate_main env_ok world_ready = Some (0, st_world r)"
    by auto
  from m1 m2 wf run_one_left a b show ?thesis by blast
qed

text \<open>
  \<^bold>\<open>C4\<close>, as the claim states it, does not hold: no bound on the retries exists. With a
  service that answers every request with status 429 and a unit without clip, the runner
  never returns and the process never exits: it surfaces no error at all.
\<close>

theorem runner_throttle_retry_counterexample:
  "(\<forall>k. tts env_throttled k = Http_error 429 ''Too Many Requests'') \<and>
   \<not> file_exists world_fresh (ChunkMp3 ''ch1-chunk-000'') \<and>
   generateChapterAudio env_throttled world_fresh = None \<and>
   generate_main env_throttled world_fresh = None"
proof -
  have k: "\<forall>k. tts env_throttled k = Http_error 429 ''Too Many Requests''"
    by (simp add: env_throttled_def)
  have x: "\<not> file_exists world_fresh (ChunkMp3 ''ch1-chunk-000'')"
    by (simp add: file_exists_def world_fresh_files)
  have "generateChapterAudio env_throttled world_fresh = None"
  proof (rule generateChapterAudio_throttled)
    show "read_manifest world_fresh = Inr manifest_3"
      by (simp add: read_manifest_def world_fresh_files)
    show "api_key env_throttled" by (simp add: env_throttled_def)
    show "\<forall>d\<in>set durations. file_exists world_fresh (SilenceMp3 d) \<or>
        make_silence env_throttled d = Tool_ok"
      by (simp add: env_throttled_def)
    show "\<exists>c\<in>set (chunks manifest_3). \<not> file_exists world_fresh (ChunkMp3 (chunk_id c))"
      by (auto simp: file_exists_def world_fresh_files manifest_3_def mk_chunk_def)
    show "\<forall>k. throttled (tts env_throttled k)"
      by (simp add: env_throttled_def throttled_429)
  qed
  with k x show ?thesis by (simp add: generate_main_def)
qed

text \<open>
  \<^bold>\<open>C4\<close>, amended. When the request for a unit is answered with status 429, the runner
  sleeps 5000 ms, leaves the files as they are and does not move the index: the next request
  is for the same unit. The number of such retries is not bounded: when every request is
  answered with status 429 and some unit has no clip, the runner never returns and the
  process never exits.
\<close>

theorem runner_throttle_retry:
  "(api_key e \<and> 0 \<le> idx s \<and>
    \<not> file_exists (st_world s) (ChunkMp3 (chunk_id (chunks m ! nat (idx s)))) \<and>
    tts e (length (exchanges s)) = Http_error 429 body \<longrightarrow>
      idx (iteration e m s) = idx s \<and>
      slept (st_world (iteration e m s)) = slept (st_world s) + 5000 \<and>
      files (st_world (iteration e m s)) = files (st_world s) \<and>
      exchanges (iteration e m s) = exchanges s @ [(nat (idx s), Http_error 429 body)] \<and>
      exchanges (iteration e m (iteration e m s)) =
        exchanges s @ [(nat (idx s), Http_error 429 body),
                       (nat (idx s), tts e (Suc (length (exchanges s))))]) \<and>
   (read_manifest w = Inr m \<and> api_key e \<and>
    (\<forall>d\<in>set durations. file_exists w (SilenceMp3 d) \<or> make_silence e d = Tool_ok) \<and>
    (\<exists>c\<in>set (chunks m). \<not> file_exists w (ChunkMp3 (chunk_id c))) \<and>
    (\<forall>k. \<exists>body. tts e k = Http_error 429 body) \<longrightarrow>
      generateChapterAudio e w = None \<and> generate_main e w = None)"
proof -
  have a: "api_key e \<and> 0 \<le> idx s \<and>
    \<not> file_exists (st_world s) (ChunkMp3 (chunk_id (chunks m ! nat (idx s)))) \<and>
    tts e (length (exchanges s)) = Http_error 429 body \<longrightarrow>
      idx (iteration e m s) = idx s \<and>
      slept (st_world (iteration e m s)) = slept (st_world s) + 5000 \<and>
      files (st_world (iteration e m s)) = files (st_world s) \<and>
      exchanges (iteration e m s) = exchanges s @ [(nat (idx s), Http_error 429 body)] \<and>
      exchanges (iteration e m (iteration e m s)) =
        exchanges s @ [(nat (idx s), Http_error 429 body),
                       (nat (idx s), tts e (Suc (length (exchanges s))))]"
  proof
    assume h: "api_key e \<and> 0 \<le> idx s \<and>
      \<not> file_exists (st_world s) (ChunkMp3 (chunk_id (chunks m ! nat (idx s)))) \<and>
      tts e (length (exchanges s)) = Http_error 429 body"
    let ?s1 = "s\<lparr>exchanges := exchanges s @ [(nat (idx s), tts e (length (exchanges s)))],
       st_world := sleep 5000 (st_world s),
       errorCount := errorCount s + 1,
       idx := idx s\<rparr>"
    have it: "iteration e m s = ?s1"
      using h by (intro iteration_throttled) (simp_all add: throttled_429)
    have nx: "\<not> file_exists (st_world ?s1) (ChunkMp3 (chunk_id (chunks m ! nat (idx ?s1))))"
      using h by (simp add: file_exists_def sleep_def)
    have "exchanges (iteration e m ?s1) =
        exchanges ?s1 @ [(nat (idx ?s1), tts e (length (exchanges ?s1)))]"
      using nx h
      by (simp add: iteration_def textToSpeech_def Let_def split: response.splits)
    with it h show "idx (iteration e m s) = idx s \<and>
      slept (st_world (iteration e m s)) = slept (st_world s) + 5000 \<and>
      files (st_world (iteration e m s)) = files (st_world s) \<and>
      exchanges (iteration e m s) = exchanges s @ [(nat (idx s), Http_error 429 body)] \<and>
      exchanges (iteration e m (iteration e m s)) =
        exchanges s @ [(nat (idx s), Http_error 429 body),
                       (nat (idx s), tts e (Suc (length (exchanges s))))]"
      by (simp add: sleep_def)
  qed
  have b: "read_manifest w = Inr m \<and> api_key e \<and>
    (\<forall>d\<in>set durations. file_exists w (SilenceMp3 d) \<or> make_silence e d = Tool_ok) \<and>
    (\<exists>c\<in>set (chunks m). \<not> file_exists w (ChunkMp3 (chunk_id c))) \<and>
    (\<forall>k. \<exists>body. tts e k = Http_error 429 body) \<longrightarrow>
      generateChapterAudio e w = None \<and> generate_main e w = None"
  proof
    assume h: "read_manifest w = Inr m \<and> api_key e \<and>
      (\<forall>d\<in>set durations. file_exists w (SilenceMp3 d) \<or> make_silence e d = Tool_ok) \<and>
      (\<exists>c\<in>set (chunks m). \<not> file_exists w (ChunkMp3 (chunk_id c))) \<and>
      (\<forall>k. \<exists>body. tts e k = Http_error 429 body)"
    then have "\<forall>k. throttled (tts e k)" by (metis throttled_429)
    with h have "generateChapterAudio e w = None"
      by (intro generateChapterAudio_throttled [where m = m]) simp_all
    then show "generateChapterAudio e w = None \<and> generate_main e w = None"
      by (simp add: generate_main_def)
  qed
  from a b show ?thesis ..
qed

theorem runner_throttle_retry_witness:
  "api_key env_throttled \<and>
   \<not> file_exists (st_world (init_state world_fresh))
       (ChunkMp3 (chunk_id (chunks manifest_3 ! nat (idx (init_state world_fresh))))) \<and>
   tts env_throttled (length (exchanges (init_state world_fresh))) =
     Http_error 429 ''Too Many Requests'' \<and>
   idx (iteration env_throttled manifest_3 (init_state world_fresh)) = 0 \<and>
   slept (st_world (iteration env_throttled manifest_3 (init_state world_fresh))) = 5000 \<and>
   exchanges (iteration env_throttled manifest_3
               (iteration env_throttled manifest_3 (init_state world_fresh))) =
     [(0, Http_error 429 ''Too Many Requests''), (0, Http_error 429 ''Too Many Requests'')] \<and>
   read_manifest world_fresh = Inr manifest_3 \<and>
   generate_main env_throttled world_fresh = None"
proof -
  have key: "api_key env_throttled" by (simp add: env_throttled_def)
  have i0: "0 \<le> idx (init_state world_fresh)" by (simp add: init_state_def)
  have x: "\<not> file_exists (st_world (init_state world_fresh))
       (ChunkMp3 (chunk_id (chunks manifest_3 ! nat (idx (init_state world_fresh)))))"
    by (simp add: init_state_def file_exists_def world_fresh_files manifest_3_def mk_chunk_def)
  have t: "\<And>k. tts env_throttled k = Http_error 429 ''Too Many Requests''"
    by (simp add: env_throttled_def)
  have m: "read_manifest world_fresh = Inr manifest_3"
    by (simp add: read_manifest_def world_fresh_files)
  have sil: "\<forall>d\<in>set durations. file_exists world_fresh (SilenceMp3 d) \<or>
        make_silence env_throttled d = Tool_ok"
    by (simp add: env_throttled_def)
  have miss: "\<exists>c\<in>set (chunks manifest_3). \<not> file_exists world_fresh (ChunkMp3 (chunk_id c))"
    by (auto simp: file_exists_def world_fresh_files manifest_3_def mk_chunk_def)
  have ini: "idx (init_state world_fresh) = 0" "exchanges (init_state world_fresh) = []"
    "slept (st_world (init_state world_fresh)) = 0"
    by (simp_all add: init_state_def world_fresh_def)
  from runner_throttle_retry [of env_throttled "init_state world_fresh" manifest_3
      "''Too Many Requests''" world_fresh]
    key i0 x t m sil miss ini
  show ?thesis by auto
qed

text \<open>
  \<^bold>\<open>C7\<close>. \<^verbatim>\<open>generateSilence\<close> returns the world unchanged when the silence file of the
  duration exists. When it does not and ffmpeg succeeds, it runs ffmpeg once and writes that
  one file, and a second call in the world it leaves changes nothing. The runner's durations
  are 0.8, 1.5, 2.0, 2.5 and 3.0 s. When every one of them has its file or ffmpeg succeeds
  for it, \<^verbatim>\<open>generateAllSilences\<close> returns, all five files exist afterwards, ffmpeg has run
  exactly once for each duration whose file was missing, in the order of the list, each of
  those files is the silence of its duration, and every file that existed is as it was. Under
  the same condition the runner does this before its loop: the loop starts in the world so
  provisioned, with no exchange made yet, and all five files exist in every state of the
  loop and in the final state. When provisioning fails the run ends with that failure and no
  unit is synthesized.
\<close>

theorem runner_silences:
  "(file_exists w (SilenceMp3 d) \<longrightarrow> generateSilence e d w = Inr w) \<and>
   (\<not> file_exists w (SilenceMp3 d) \<and> make_silence e d = Tool_ok \<longrightarrow>
      generateSilence e d w =
        Inr (w\<lparr>files := (files w)(SilenceMp3 d \<mapsto> SilentAudio d),
               ffmpeg_runs := ffmpeg_runs w @ [Make_silence d]\<rparr>) \<and>
      generateSilence e d
        (w\<lparr>files := (files w)(SilenceMp3 d \<mapsto> SilentAudio d),
           ffmpeg_runs := ffmpeg_runs w @ [Make_silence d]\<rparr>) =
        Inr (w\<lparr>files := (files w)(SilenceMp3 d \<mapsto> SilentAudio d),
               ffmpeg_runs := ffmpeg_runs w @ [Make_silence d]\<rparr>)) \<and>
   durations = [0.8, 1.5, 2.0, 2.5, 3.0] \<and>
   ((\<forall>d\<in>set durations. file_exists w (SilenceMp3 d) \<or> make_silence e d = Tool_ok) \<longrightarrow>
      (\<exists>w1. generateAllSilences e w = Inr w1 \<and> all_silences w1 \<and>
            ffmpeg_runs w1 =
              ffmpeg_runs w @
              map Make_silence (filter (\<lambda>d. \<not> file_exists w (SilenceMp3 d)) durations) \<and>
            (\<forall>d\<in>set durations. \<not> file_exists w (SilenceMp3 d) \<longrightarrow>
               files w1 (SilenceMp3 d) = Some (SilentAudio d)) \<and>
            (\<forall>p. file_exists w p \<longrightarrow> files w1 p = files w p))) \<and>
   (read_manifest w = Inr m \<and>
    (\<forall>d\<in>set durations. file_exists w (SilenceMp3 d) \<or> make_silence e d = Tool_ok) \<longrightarrow>
      (\<exists>w2. generateAllSilences e (ensure_dir ChunksDir w) = Inr w2 \<and> all_silences w2 \<and>
            ffmpeg_runs w2 =
              ffmpeg_runs w @
              map Make_silence (filter (\<lambda>d. \<not> file_exists w (SilenceMp3 d)) durations) \<and>
            exchanges (init_state w2) = [] \<and>
            generateChapterAudio e w = map_option Inr (run_loop e m (init_state w2)) \<and>
            (\<forall>n. all_silences (st_world ((iteration e m ^^ n) (init_state w2)))))) \<and>
   (generateAllSilences e w = Inr w1 \<longrightarrow> all_silences w1) \<and>
   (read_manifest w = Inr m \<longrightarrow>
      (case generateAllSilences e (ensure_dir ChunksDir w) of
         Inl err \<Rightarrow> generateChapterAudio e w = Some (Inl err)
       | Inr w2 \<Rightarrow>
           all_silences w2 \<and> exchanges (init_state w2) = [] \<and>
           generateChapterAudio e w = map_option Inr (run_loop e m (init_state w2)) \<and>
           (\<forall>n. all_silences (st_world ((iteration e m ^^ n) (init_state w2)))))) \<and>
   (read_manifest w = Inr m \<and> generateChapterAudio e w = Some (Inr r) \<longrightarrow>
      all_silences (st_world r))"
proof -
  let ?w' = "w\<lparr>files := (files w)(SilenceMp3 d \<mapsto> SilentAudio d),
               ffmpeg_runs := ffmpeg_runs w @ [Make_silence d]\<rparr>"
  let ?missing = "\<lambda>w. filter (\<lambda>d. \<not> file_exists w (SilenceMp3 d)) durations"
  have a: "file_exists w (SilenceMp3 d) \<longrightarrow> generateSilence e d w = Inr w"
    by (simp add: generateSilence_exists)
  have b: "\<not> file_exists w (SilenceMp3 d) \<and> make_silence e d = Tool_ok \<longrightarrow>
      generateSilence e d w = Inr ?w' \<and> generateSilence e d ?w' = Inr ?w'"
  proof
    assume h: "\<not> file_exists w (SilenceMp3 d) \<and> make_silence e d = Tool_ok"
    then have "generateSilence e d w = Inr ?w'" by (simp add: generateSilence_creates)
    moreover have "file_exists ?w' (SilenceMp3 d)" by (simp add: file_exists_def)
    then have "generateSilence e d ?w' = Inr ?w'" by (rule generateSilence_exists)
    ultimately show "generateSilence e d w = Inr ?w' \<and> generateSilence e d ?w' = Inr ?w'" ..
  qed
  have c: "durations = [0.8, 1.5, 2.0, 2.5, 3.0]" by (simp add: durations_def)
  have p: "(\<forall>d\<in>set durations. file_exists w (SilenceMp3 d) \<or> make_silence e d = Tool_ok) \<longrightarrow>
      (\<exists>w1. generateAllSilences e w = Inr w1 \<and> all_silences w1 \<and>
            ffmpeg_runs w1 = ffmpeg_runs w @ map Make_silence (?missing w) \<and>
            (\<forall>d\<in>set durations. \<not> file_exists w (SilenceMp3 d) \<longrightarrow>
               files w1 (SilenceMp3 d) = Some (SilentAudio d)) \<and>
            (\<forall>p. file_exists w p \<longrightarrow> files w1 p = files w p))"
    by (rule impI) (rule generateAllSilences_provisions)
  have q: "read_manifest w = Inr m \<and>
    (\<forall>d\<in>set durations. file_exists w (SilenceMp3 d) \<or> make_silence e d = Tool_ok) \<longrightarrow>
      (\<exists>w2. generateAllSilences e (ensure_dir ChunksDir w) = Inr w2 \<and> all_silences w2 \<and>
            ffmpeg_runs w2 = ffmpeg_runs w @ map Make_silence (?missing w) \<and>
            exchanges (init_state w2) = [] \<and>
            generateChapterAudio e w = map_option Inr (run_loop e m (init_state w2)) \<and>
            (\<forall>n. all_silences (st_world ((iteration e m ^^ n) (init_state w2)))))"
  proof
    assume h: "read_manifest w = Inr m \<and>
      (\<forall>d\<in>set durations. file_exists w (SilenceMp3 d) \<or> make_silence e d = Tool_ok)"
    let ?w0 = "ensure_dir ChunksDir w"
    have same: "\<And>d. file_exists ?w0 (SilenceMp3 d) = file_exists w (SilenceMp3 d)"
      by (simp add: file_exists_def ensure_dir_frame(2))
    from h have "\<forall>d\<in>set durations. file_exists ?w0 (SilenceMp3 d) \<or> make_silence e d = Tool_ok"
      by (simp add: same)
    from generateAllSilences_provisions [OF this] obtain w2 where
      g: "generateAllSilences e ?w0 = Inr w2" and al: "all_silences w2"
      and r: "ffmpeg_runs w2 = ffmpeg_runs ?w0 @ map Make_silence (?missing ?w0)"
      by blast
    from h g have run: "generateChapterAudio e w = map_option Inr (run_loop e m (init_state w2))"
      by (simp add: generateChapterAudio_run(1))
    from al have "all_silences (st_world (init_state w2))" by (simp add: init_state_def)
    then have it: "\<forall>n. all_silences (st_world ((iteration e m ^^ n) (init_state w2)))"
      by (simp add: iterations_keep_silences)
    have "ffmpeg_runs w2 = ffmpeg_runs w @ map Make_silence (?missing w)"
      using r by (simp add: same ensure_dir_frame(4))
    with g al run it show "\<exists>w2. generateAllSilences e ?w0 = Inr w2 \<and> all_silences w2 \<and>
            ffmpeg_runs w2 = ffmpeg_runs w @ map Make_silence (?missing w) \<and>
            exchanges (init_state w2) = [] \<and>
            generateChapterAudio e w = map_option Inr (run_loop e m (init_state w2)) \<and>
            (\<forall>n. all_silences (st_world ((iteration e m ^^ n) (init_state w2))))"
      by (auto simp: init_state_def)
  qed
  have d: "generateAllSilences e w = Inr w1 \<longrightarrow> all_silences w1"
    by (simp add: generateAllSilences_frame(1))
  have e: "read_manifest w = Inr m \<longrightarrow>
      (case generateAllSilences e (ensure_dir ChunksDir w) of
         Inl err \<Rightarrow> generateChapterAudio e w = Some (Inl err)
       | Inr w2 \<Rightarrow>
           all_silences w2 \<and> exchanges (init_state w2) = [] \<and>
           generateChapterAudio e w = map_option Inr (run_loop e m (init_state w2)) \<and>
           (\<forall>n. all_silences (st_world ((iteration e m ^^ n) (init_state w2)))))"
  proof
    assume m: "read_manifest w = Inr m"
    show "case generateAllSilences e (ensure_dir ChunksDir w) of
         Inl err \<Rightarrow> generateChapterAudio e w = Some (Inl err)
       | Inr w2 \<Rightarrow>
           all_silences w2 \<and> exchanges (init_state w2) = [] \<and>
           generateChapterAudio e w = map_option Inr (run_loop e m (init_state w2)) \<and>
           (\<forall>n. all_silences (st_world ((iteration e m ^^ n) (init_state w2))))"
    proof (cases "generateAllSilences e (ensure_dir ChunksDir w)")
      case (Inl err)
      then show ?thesis by (simp add: generateChapterAudio_def m)
    next
      case (Inr w2)
      note run = generateChapterAudio_run [OF m Inr]
      have "all_silences (st_world (init_state w2))" using run(2) by (simp add: init_state_def)
      then have "\<forall>n. all_silences (st_world ((iteration e m ^^ n) (init_state w2)))"
        by (simp add: iterations_keep_silences)
      with run(1,2) Inr show ?thesis by (simp add: init_state_def)
    qed
  qed
  have f: "read_manifest w = Inr m \<and> generateChapterAudio e w = Some (Inr r) \<longrightarrow>
      all_silences (st_world r)"
  proof
    assume h: "read_manifest w = Inr m \<and> generateChapterAudio e w = Some (Inr r)"
    then have "read_manifest w = Inr m" and "generateChapterAudio e w = Some (Inr r)"
      by simp_all
    then show "all_silences (st_world r)" by (rule after_run(2))
  qed
  from a b c p q d e f show ?thesis by blast
qed

text \<open>Provisioning where nothing exists yet makes all five files, and where all exist
  makes none.\<close>

theorem runner_silences_witness:
  "\<not> file_exists world_fresh (SilenceMp3 2.0) \<and> make_silence env_ok 2.0 = Tool_ok \<and>
   generateSilence env_ok 2.0 world_fresh =
     Inr (world_fresh\<lparr>files := (files world_fresh)(SilenceMp3 2.0 \<mapsto> SilentAudio 2.0),
                      ffmpeg_runs := ffmpeg_runs world_fresh @ [Make_silence 2.0]\<rparr>) \<and>
   read_manifest world_fresh = Inr manifest_3 \<and>
   (\<exists>w1. generateAllSilences env_ok world_fresh = Inr w1 \<and> all_silences w1 \<and>
         ffmpeg_runs w1 = [Make_silence 0.8, Make_silence 1.5, Make_silence 2.0,
                           Make_silence 2.5, Make_silence 3.0] \<and>
         files w1 (SilenceMp3 2.5) = Some (SilentAudio 2.5)) \<and>
   (\<exists>w2. generateAllSilences env_ok (ensure_dir ChunksDir world_fresh) = Inr w2 \<and>
         all_silences w2 \<and>
         ffmpeg_runs w2 = [Make_silence 0.8, Make_silence 1.5, Make_silence 2.0,
                           Make_silence 2.5, Make_silence 3.0] \<and>
         generateChapterAudio env_ok world_fresh =
           map_option Inr (run_loop env_ok manifest_3 (init_state w2))) \<and>
   file_exists world_ready (SilenceMp3 2.0) \<and>
   generateSilence env_ok 2.0 world_ready = Inr world_ready \<and>
   generateAllSilences env_ok world_ready = Inr world_ready \<and>
   read_manifest world_ready = Inr manifest_3 \<and>
   generateChapterAudio env_ok world_ready = Some (Inr state_after_rerun) \<and>
   all_silences (st_world state_after_rerun)"
proof -
  have a: "file_exists world_ready (SilenceMp3 2.0)"
    by (simp add: file_exists_def world_ready_files)
  have m: "read_manifest world_ready = Inr manifest_3"
    by (simp add: read_manifest_def world_ready_files)
  have mf: "read_manifest world_fresh = Inr manifest_3"
    by (simp add: read_manifest_def world_fresh_files)
  have b: "\<not> file_exists world_fresh (SilenceMp3 2.0)"
    by (simp add: file_exists_def world_fresh_files)
  have c: "make_silence env_ok 2.0 = Tool_ok" by (simp add: env_ok_def)
  have sil: "\<forall>d\<in>set durations. file_exists world_fresh (SilenceMp3 d) \<or>
      make_silence env_ok d = Tool_ok"
    by (simp add: env_ok_def)
  have none: "filter (\<lambda>d. \<not> file_exists world_fresh (SilenceMp3 d)) durations =
      [0.8, 1.5, 2.0, 2.5, 3.0]"
    by (simp add: durations_def file_exists_def world_fresh_files)
  have runs: "ffmpeg_runs world_fresh = []" by (simp add: world_fresh_def)
  have in25: "2.5 \<in> set durations" by (simp add: durations_def)
  have n25: "\<not> file_exists world_fresh (SilenceMp3 2.5)"
    by (simp add: file_exists_def world_fresh_files)
  note fresh = runner_silences [of world_fresh "2.0" env_ok manifest_3 world_ready state_after_rerun]
  note ready = runner_silences [of world_ready "2.0" env_ok manifest_3 world_ready state_after_rerun]
  from fresh b c have g: "generateSilence env_ok 2.0 world_fresh =
     Inr (world_fresh\<lparr>files := (files world_fresh)(SilenceMp3 2.0 \<mapsto> SilentAudio 2.0),
                      ffmpeg_runs := ffmpeg_runs world_fresh @ [Make_silence 2.0]\<rparr>)"
    by blast
  from fresh sil obtain w1 where w1: "generateAllSilences env_ok world_fresh = Inr w1"
    "all_silences w1"
    "ffmpeg_runs w1 = ffmpeg_runs world_fresh @
       map Make_silence (filter (\<lambda>d. \<not> file_exists world_fresh (SilenceMp3 d)) durations)"
    "\<forall>d\<in>set durations. \<not> file_exists world_fresh (SilenceMp3 d) \<longrightarrow>
       files w1 (SilenceMp3 d) = Some (SilentAudio d)"
    by blast
  from w1(4) in25 n25 have "files w1 (SilenceMp3 2.5) = Some (SilentAudio 2.5)" by blast
  with w1(1-3) have p: "\<exists>w1. generateAllSilences env_ok world_fresh = Inr w1 \<and> all_silences w1 \<and>
         ffmpeg_runs w1 = [Make_silence 0.8, Make_silence 1.5, Make_silence 2.0,
                           Make_silence 2.5, Make_silence 3.0] \<and>
         files w1 (SilenceMp3 2.5) = Some (SilentAudio 2.5)"
    by (simp add: none runs)
  from fresh mf sil obtain w2 where
    w2: "generateAllSilences env_ok (ensure_dir ChunksDir world_fresh) = Inr w2"
    "all_silences w2"
    "ffmpeg_runs w2 = ffmpeg_runs world_fresh @
       map Make_silence (filter (\<lambda>d. \<not> file_exists world_fresh (SilenceMp3 d)) durations)"
    "generateChapterAudio env_ok world_fresh =
       map_option Inr (run_loop env_ok manifest_3 (init_state w2))"
    by blast
  then have q: "\<exists>w2. generateAllSilences env_ok (ensure_dir ChunksDir world_fresh) = Inr w2 \<and>
         all_silences w2 \<and>
         ffmpeg_runs w2 = [Make_silence 0.8, Make_silence 1.5, Make_silence 2.0,
                           Make_silence 2.5, Make_silence 3.0] \<and>
         generateChapterAudio env_ok world_fresh =
           map_option Inr (run_loop env_ok manifest_3 (init_state w2))"
    by (simp add: none runs)
  from ready a have r1: "generateSilence env_ok 2.0 world_ready = Inr world_ready" by blast
  from ready m run_ready have r2: "all_silences (st_world state_after_rerun)" by blast
  from a m mf b c g p q r1 r2 provision_ready [of env_ok] run_ready
  show ?thesis by blast
qed

text \<open>
  \<^bold>\<open>C9\<close>. A pass of the loop whose request is answered with status 429 increments the
  error count and leaves the success count and the index as they are. When the silence
  files exist or can be made and the throttling clears (from some request on no answer is
  throttled), the run returns: the sum of its success count and its error count is the
  number of units plus the number of throttled answers, and the process exits with status
  1 unless the error count is zero. So when one of its requests was answered with status
  429 (as the first request is, when a clip is missing and the first answer is 429), the
  error count is at least one, the sum exceeds the number of units (and \<^verbatim>\<open>totalChunks\<close>, when
  that is the number of units) and the exit status is 1, also when every other answer is the
  audio and every clip is on disk at the end.
\<close>

theorem runner_throttle_counted:
  assumes m: "read_manifest w = Inr m"
    and sil: "\<forall>d\<in>set durations. file_exists w (SilenceMp3 d) \<or> make_silence e d = Tool_ok"
    and clears: "\<forall>k\<ge>N. \<not> throttled (tts e k)"
  shows "(api_key e \<and>
          \<not> file_exists (st_world s) (ChunkMp3 (chunk_id (chunks m ! nat (idx s)))) \<and>
          tts e (length (exchanges s)) = Http_error 429 body \<longrightarrow>
            errorCount (iteration e m s) = errorCount s + 1 \<and>
            successCount (iteration e m s) = successCount s \<and>
            idx (iteration e m s) = idx s) \<and>
         (\<exists>r. generateChapterAudio e w = Some (Inr r) \<and>
              generate_main e w = Some (if errorCount r = 0 then 0 else 1, st_world r) \<and>
              successCount r + errorCount r = length (chunks m) + throttle_count r \<and>
              throttle_count r \<le> errorCount r \<and>
              ((\<exists>k b. (k, Http_error 429 b) \<in> set (exchanges r)) \<longrightarrow>
                 1 \<le> errorCount r \<and>
                 length (chunks m) < successCount r + errorCount r \<and>
                 (totalChunks m = length (chunks m) \<longrightarrow>
                    totalChunks m < successCount r + errorCount r) \<and>
                 generate_main e w = Some (1, st_world r)) \<and>
              (api_key e \<and> (\<exists>c\<in>set (chunks m). \<not> file_exists w (ChunkMp3 (chunk_id c))) \<and>
               tts e 0 = Http_error 429 body \<longrightarrow>
                 (\<exists>u. (u, Http_error 429 body) \<in> set (exchanges r))) \<and>
              (api_key e \<and> (\<forall>k. throttled (tts e k) \<or> (\<exists>b. tts e k = Audio b)) \<longrightarrow>
                 (\<forall>c\<in>set (chunks m). file_exists (st_world r) (ChunkMp3 (chunk_id c)))))"
proof
  show "api_key e \<and>
          \<not> file_exists (st_world s) (ChunkMp3 (chunk_id (chunks m ! nat (idx s)))) \<and>
          tts e (length (exchanges s)) = Http_error 429 body \<longrightarrow>
            errorCount (iteration e m s) = errorCount s + 1 \<and>
            successCount (iteration e m s) = successCount s \<and>
            idx (iteration e m s) = idx s"
  proof
    assume h: "api_key e \<and>
          \<not> file_exists (st_world s) (ChunkMp3 (chunk_id (chunks m ! nat (idx s)))) \<and>
          tts e (length (exchanges s)) = Http_error 429 body"
    then have "iteration e m s =
       s\<lparr>exchanges := exchanges s @ [(nat (idx s), tts e (length (exchanges s)))],
         st_world := sleep 5000 (st_world s),
         errorCount := errorCount s + 1,
         idx := idx s\<rparr>"
      by (intro iteration_throttled) (simp_all add: throttled_429)
    then show "errorCount (iteration e m s) = errorCount s + 1 \<and>
            successCount (iteration e m s) = successCount s \<and>
            idx (iteration e m s) = idx s"
      by simp
  qed
next
  from provisioning_succeeds [OF sil] obtain w1
    where w1: "generateAllSilences e (ensure_dir ChunksDir w) = Inr w1" ..
  note run = generateChapterAudio_run [OF m w1]
  from run_loop_returns [OF clears] obtain r
    where l: "run_loop e m (init_state w1) = Some r" by blast
  with run(1) have g: "generateChapterAudio e w = Some (Inr r)" by simp
  have main: "generate_main e w = Some (if errorCount r = 0 then 0 else 1, st_world r)"
    by (simp add: generate_main_def g)
  have "idx (init_state w1) \<le> int (length (chunks m))" by (simp add: init_state_def)
  from run_loop_counts [OF l this]
  have fin: "idx r = int (length (chunks m))"
    and sum0: "int (successCount r) + int (errorCount r) - int (length (chunks m)) -
      int (throttle_count r) = 0"
    and err: "throttle_count r \<le> errorCount r"
    by (simp_all add: init_state_def throttle_count_def)
  from sum0 have sum: "successCount r + errorCount r = length (chunks m) + throttle_count r"
    by linarith
  have c429: "(\<exists>k b. (k, Http_error 429 b) \<in> set (exchanges r)) \<longrightarrow>
                 1 \<le> errorCount r \<and>
                 length (chunks m) < successCount r + errorCount r \<and>
                 (totalChunks m = length (chunks m) \<longrightarrow>
                    totalChunks m < successCount r + errorCount r) \<and>
                 generate_main e w = Some (1, st_world r)"
  proof
    assume "\<exists>k b. (k, Http_error 429 b) \<in> set (exchanges r)"
    then obtain k b where "(k, Http_error 429 b) \<in> set (exchanges r)" by blast
    then have "(k, Http_error 429 b) \<in> set (filter (\<lambda>x. throttled (snd x)) (exchanges r))"
      by (simp add: throttled_429)
    then have "filter (\<lambda>x. throttled (snd x)) (exchanges r) \<noteq> []"
      by (metis empty_iff list.set(1))
    then have t: "1 \<le> throttle_count r" by (simp add: throttle_count_def Suc_le_eq)
    with err have e1: "1 \<le> errorCount r" by simp
    with main have "generate_main e w = Some (1, st_world r)" by simp
    with e1 sum t show "1 \<le> errorCount r \<and>
                 length (chunks m) < successCount r + errorCount r \<and>
                 (totalChunks m = length (chunks m) \<longrightarrow>
                    totalChunks m < successCount r + errorCount r) \<and>
                 generate_main e w = Some (1, st_world r)"
      by simp
  qed
  have first: "api_key e \<and> (\<exists>c\<in>set (chunks m). \<not> file_exists w (ChunkMp3 (chunk_id c))) \<and>
               tts e 0 = Http_error 429 body \<longrightarrow>
                 (\<exists>u. (u, Http_error 429 body) \<in> set (exchanges r))"
  proof
    assume h: "api_key e \<and> (\<exists>c\<in>set (chunks m). \<not> file_exists w (ChunkMp3 (chunk_id c))) \<and>
               tts e 0 = Http_error 429 body"
    then obtain j where j: "j < length (chunks m)"
      and nj: "\<not> file_exists w (ChunkMp3 (chunk_id (chunks m ! j)))"
      by (auto simp: in_set_conv_nth)
    from h have key: "api_key e" by simp
    have "\<exists>u. (u, tts e 0) \<in> set (exchanges r)"
    proof (rule first_request_logged [OF key j l])
      show "exchanges (init_state w1) = []" by (simp add: init_state_def)
      show "0 \<le> idx (init_state w1)" by (simp add: init_state_def)
      show "nat (idx (init_state w1)) \<le> j" by (simp add: init_state_def)
      show "\<not> file_exists (st_world (init_state w1)) (ChunkMp3 (chunk_id (chunks m ! j)))"
        using nj by (simp add: init_state_def file_exists_def run(3))
    qed
    with h show "\<exists>u. (u, Http_error 429 body) \<in> set (exchanges r)" by simp
  qed
  have disk: "api_key e \<and> (\<forall>k. throttled (tts e k) \<or> (\<exists>b. tts e k = Audio b)) \<longrightarrow>
                 (\<forall>c\<in>set (chunks m). file_exists (st_world r) (ChunkMp3 (chunk_id c)))"
  proof
    assume h: "api_key e \<and> (\<forall>k. throttled (tts e k) \<or> (\<exists>b. tts e k = Audio b))"
    have "clips_behind m r"
    proof (rule run_loop_clips_behind [OF l])
      show "api_key e" using h by simp
      show "\<forall>k. throttled (tts e k) \<or> (\<exists>b. tts e k = Audio b)" using h by simp
      show "0 \<le> idx (init_state w1)" by (simp add: init_state_def)
      show "clips_behind m (init_state w1)" by (simp add: clips_behind_def init_state_def)
    qed
    with fin show "\<forall>c\<in>set (chunks m). file_exists (st_world r) (ChunkMp3 (chunk_id c))"
      by (auto simp: clips_behind_def in_set_conv_nth)
  qed
  from g main sum err c429 first disk
  show "\<exists>r. generateChapterAudio e w = Some (Inr r) \<and>
              generate_main e w = Some (if errorCount r = 0 then 0 else 1, st_world r) \<and>
              successCount r + errorCount r = length (chunks m) + throttle_count r \<and>
              throttle_count r \<le> errorCount r \<and>
              ((\<exists>k b. (k, Http_error 429 b) \<in> set (exchanges r)) \<longrightarrow>
                 1 \<le> errorCount r \<and>
                 length (chunks m) < successCount r + errorCount r \<and>
                 (totalChunks m = length (chunks m) \<longrightarrow>
                    totalChunks m < successCount r + errorCount r) \<and>
                 generate_main e w = Some (1, st_world r)) \<and>
              (api_key e \<and> (\<exists>c\<in>set (chunks m). \<not> file_exists w (ChunkMp3 (chunk_id c))) \<and>
               tts e 0 = Http_error 429 body \<longrightarrow>
                 (\<exists>u. (u, Http_error 429 body) \<in> set (exchanges r))) \<and>
              (api_key e \<and> (\<forall>k. throttled (tts e k) \<or> (\<exists>b. tts e k = Audio b)) \<longrightarrow>
                 (\<forall>c\<in>set (chunks m). file_exists (st_world r) (ChunkMp3 (chunk_id c))))"
    by blast
qed

text \<open>The first request is throttled, the retry succeeds, every clip is on disk, and the
  process exits with status 1.\<close>

theorem runner_throttle_counted_witness:
  "read_manifest world_one_left = Inr manifest_3 \<and>
   api_key env_throttled_once \<and>
   \<not> file_exists world_one_left (ChunkMp3 ''ch1-chunk-002'') \<and>
   tts env_throttled_once 0 = Http_error 429 ''Too Many Requests'' \<and>
   tts env_throttled_once 1 = Audio [7] \<and>
   generateChapterAudio env_throttled_once world_one_left = Some (Inr state_after_retry) \<and>
   (2, Http_error 429 ''Too Many Requests'') \<in> set (exchanges state_after_retry) \<and>
   file_exists (st_world state_after_retry) (ChunkMp3 ''ch1-chunk-000'') \<and>
   file_exists (st_world state_after_retry) (ChunkMp3 ''ch1-chunk-001'') \<and>
   file_exists (st_world state_after_retry) (ChunkMp3 ''ch1-chunk-002'') \<and>
   successCount state_after_retry = 3 \<and> errorCount state_after_retry = 1 \<and>
   totalChunks manifest_3 < successCount state_after_retry + errorCount state_after_retry \<and>
   generate_main env_throttled_once world_one_left = Some (1, st_world state_after_retry)"
proof -
  have m: "read_manifest world_one_left = Inr manifest_3"
    by (simp add: read_manifest_def world_one_left_files)
  have sil: "\<forall>d\<in>set durations. file_exists world_one_left (SilenceMp3 d) \<or>
      make_silence env_throttled_once d = Tool_ok"
    by (simp add: env_throttled_once_def)
  have clears: "\<forall>k\<ge>1. \<not> throttled (tts env_throttled_once k)"
    by (simp add: env_throttled_once_def throttled_def)
  have key: "api_key env_throttled_once" by (simp add: env_throttled_once_def)
  have t0: "tts env_throttled_once 0 = Http_error 429 ''Too Many Requests''"
    and t1: "tts env_throttled_once 1 = Audio [7]"
    by (simp_all add: env_throttled_once_def)
  have x: "\<not> file_exists world_one_left (ChunkMp3 ''ch1-chunk-002'')"
    by (simp add: file_exists_def world_one_left_files)
  have miss: "\<exists>c\<in>set (chunks manifest_3). \<not> file_exists world_one_left (ChunkMp3 (chunk_id c))"
    by (auto simp: file_exists_def world_one_left_files manifest_3_def mk_chunk_def)
  have ans: "\<forall>k. throttled (tts env_throttled_once k) \<or> (\<exists>b. tts env_throttled_once k = Audio b)"
    by (simp add: env_throttled_once_def throttled_429)
  have wf: "totalChunks manifest_3 = length (chunks manifest_3)"
    by (simp add: manifest_3_def)
  have ids: "set (chunks manifest_3) =
      {mk_chunk ''ch1-chunk-000'' ''intro'' 2.0, mk_chunk ''ch1-chunk-001'' ''paragraph'' 0,
       mk_chunk ''ch1-chunk-002'' ''paragraph'' 0.8}"
    by (simp add: manifest_3_def)
  from runner_throttle_counted [OF m sil clears,
      where body = "''Too Many Requests''" and s = "init_state world_one_left"]
  obtain r where g: "generateChapterAudio env_throttled_once world_one_left = Some (Inr r)"
    and c429: "(\<exists>k b. (k, Http_error 429 b) \<in> set (exchanges r)) \<longrightarrow>
                 1 \<le> errorCount r \<and>
                 length (chunks manifest_3) < successCount r + errorCount r \<and>
                 (totalChunks manifest_3 = length (chunks manifest_3) \<longrightarrow>
                    totalChunks manifest_3 < successCount r + errorCount r) \<and>
                 generate_main env_throttled_once world_one_left = Some (1, st_world r)"
    and first: "api_key env_throttled_once \<and>
               (\<exists>c\<in>set (chunks manifest_3).
                   \<not> file_exists world_one_left (ChunkMp3 (chunk_id c))) \<and>
               tts env_throttled_once 0 = Http_error 429 ''Too Many Requests'' \<longrightarrow>
                 (\<exists>u. (u, Http_error 429 ''Too Many Requests'') \<in> set (exchanges r))"
    and disk: "api_key env_throttled_once \<and>
               (\<forall>k. throttled (tts env_throttled_once k) \<or>
                    (\<exists>b. tts env_throttled_once k = Audio b)) \<longrightarrow>
                 (\<forall>c\<in>set (chunks manifest_3). file_exists (st_world r) (ChunkMp3 (chunk_id c)))"
    by blast
  from g run_one_left have r: "r = state_after_retry" by simp
  from first key miss t0 have "\<exists>k b. (k, Http_error 429 b) \<in> set (exchanges r)" by blast
  with c429 wf have tot: "totalChunks manifest_3 < successCount r + errorCount r"
    and ex: "generate_main env_throttled_once world_one_left = Some (1, st_world r)"
    by blast+
  from disk key ans have "\<forall>c\<in>set (chunks manifest_3).
      file_exists (st_world r) (ChunkMp3 (chunk_id c))" by blast
  then have d: "file_exists (st_world r) (ChunkMp3 ''ch1-chunk-000'')"
    "file_exists (st_world r) (ChunkMp3 ''ch1-chunk-001'')"
    "file_exists (st_world r) (ChunkMp3 ''ch1-chunk-002'')"
    by (simp_all add: ids mk_chunk_def)
  have th: "(2, Http_error 429 ''Too Many Requests'') \<in> set (exchanges state_after_retry)"
    by (simp add: state_after_retry_def)
  have c: "successCount state_after_retry = 3" "errorCount state_after_retry = 1"
    by (simp_all add: state_after_retry_def)
  from m key x t0 t1 run_one_left th d tot ex c show ?thesis unfolding r by blast
qed

subsection \<open>The assembler\<close>

text \<open>
  \<^bold>\<open>C2\<close>. For every manifest whose clips directory, clips and needed silence files all
  exist, the assembler runs the concatenation tool once, on the list \<open>concat_entries\<close> of the
  manifest's units: for each unit in manifest order its clip, followed by the silence of that
  unit's own pause when the pause is positive. The same list is written to the concat list
  file. Its length is twice the number of units minus the number of units without a positive
  pause, which for durations (no negative pause) is the number of units with zero pause.
\<close>

theorem assembler_concat_list:
  assumes m: "read_manifest w = Inr m"
    and d: "file_exists w ChunksDir"
    and clips: "\<forall>c\<in>set (chunks m). file_exists w (ChunkMp3 (chunk_id c))"
    and sil: "\<forall>c\<in>set (chunks m). 0 < pauseAfter c \<longrightarrow> file_exists w (SilenceMp3 (pauseAfter c))"
  shows "ffmpeg_runs (snd (concat_main e w)) = ffmpeg_runs w @ [Concat (concat_entries (chunks m))] \<and>
         files (snd (concat_main e w)) ConcatList = Some (ListText (concat_entries (chunks m))) \<and>
         length (concat_entries (chunks m)) =
           2 * length (chunks m) - length (filter (\<lambda>c. \<not> 0 < pauseAfter c) (chunks m)) \<and>
         ((\<forall>c\<in>set (chunks m). 0 \<le> pauseAfter c) \<longrightarrow>
            length (concat_entries (chunks m)) =
              2 * length (chunks m) - length (filter (\<lambda>c. pauseAfter c = 0) (chunks m))) \<and>
         (concat_tool e (concat_entries (chunks m)) = Tool_ok \<longrightarrow>
            fst (concat_main e w) = 0 \<and>
            files (snd (concat_main e w)) FinalMp3 = Some (Joined (concat_entries (chunks m))))"
proof -
  note run = concatChapterAudio_ready [OF m d clips sil, of e]
  have a: "ffmpeg_runs (snd (concat_main e w)) = ffmpeg_runs w @ [Concat (concat_entries (chunks m))]"
    by (simp add: concat_main_def run Let_def write_file_def split: tool_outcome.splits)
  have b: "files (snd (concat_main e w)) ConcatList = Some (ListText (concat_entries (chunks m)))"
    by (simp add: concat_main_def run Let_def write_file_def split: tool_outcome.splits)
  have d': "length (concat_entries (chunks m)) =
           2 * length (chunks m) - length (filter (\<lambda>c. \<not> 0 < pauseAfter c) (chunks m))"
    using length_concat_entries [of "chunks m"] by simp
  have e': "(\<forall>c\<in>set (chunks m). 0 \<le> pauseAfter c) \<longrightarrow>
            length (concat_entries (chunks m)) =
              2 * length (chunks m) - length (filter (\<lambda>c. pauseAfter c = 0) (chunks m))"
  proof
    assume nn: "\<forall>c\<in>set (chunks m). 0 \<le> pauseAfter c"
    have "filter (\<lambda>c. \<not> 0 < pauseAfter c) (chunks m) = filter (\<lambda>c. pauseAfter c = 0) (chunks m)"
      by (rule filter_cong) (use nn in auto)
    with d' show "length (concat_entries (chunks m)) =
              2 * length (chunks m) - length (filter (\<lambda>c. pauseAfter c = 0) (chunks m))"
      by simp
  qed
  have f: "concat_tool e (concat_entries (chunks m)) = Tool_ok \<longrightarrow>
            fst (concat_main e w) = 0 \<and>
            files (snd (concat_main e w)) FinalMp3 = Some (Joined (concat_entries (chunks m)))"
    by (simp add: concat_main_def run Let_def write_file_def)
  from a b d' e' f show ?thesis by blast
qed

theorem assembler_concat_list_witness:
  "read_manifest world_ready = Inr manifest_3 \<and> file_exists world_ready ChunksDir \<and>
   ffmpeg_runs (snd (concat_main env_ok world_ready)) =
     [Concat [ChunkMp3 ''ch1-chunk-000'', SilenceMp3 2.0, ChunkMp3 ''ch1-chunk-001'',
              ChunkMp3 ''ch1-chunk-002'', SilenceMp3 0.8]] \<and>
   length (concat_entries (chunks manifest_3)) = 2 * 3 - 1"
proof -
  have m: "read_manifest world_ready = Inr manifest_3"
    by (simp add: world_ready_def read_manifest_def)
  have d: "file_exists world_ready ChunksDir"
    by (simp add: world_ready_def file_exists_def)
  have clips: "\<forall>c\<in>set (chunks manifest_3). file_exists world_ready (ChunkMp3 (chunk_id c))"
    by (simp add: world_ready_def eval_world)
  have sil: "\<forall>c\<in>set (chunks manifest_3). 0 < pauseAfter c \<longrightarrow>
      file_exists world_ready (SilenceMp3 (pauseAfter c))"
    by (simp add: world_ready_def eval_world)
  have nn: "\<forall>c\<in>set (chunks manifest_3). 0 \<le> pauseAfter c"
    by (simp add: eval_world)
  have l: "concat_entries (chunks manifest_3) =
     [ChunkMp3 ''ch1-chunk-000'', SilenceMp3 2.0, ChunkMp3 ''ch1-chunk-001'',
              ChunkMp3 ''ch1-chunk-002'', SilenceMp3 0.8]"
    by (simp add: concat_entries_def unit_entries_def eval_world)
  have r: "ffmpeg_runs world_ready = []" by (simp add: world_ready_def)
  from assembler_concat_list [OF m d clips sil, of env_ok] m d nn l r
  show ?thesis by simp
qed

text \<open>
  \<^bold>\<open>C5\<close>, as the claim states it, does not hold: the check of a present unit's silence file
  sits in the same loop and ends the process at once. Here the first unit's clip is present
  and its silence file is not, and the third unit's clip is missing: the assembler stops with
  the silence error and never lists the missing clip.
\<close>

theorem assembler_missing_clips_counterexample:
  "read_manifest world_no_silence = Inr manifest_3 \<and>
   \<not> file_exists world_no_silence (ChunkMp3 ''ch1-chunk-002'') \<and>
   concatChapterAudio env_ok world_no_silence = Inl (Silence_missing 2.0, world_no_silence) \<and>
   concatChapterAudio env_ok world_no_silence \<noteq>
     Inl (Clips_missing [''ch1-chunk-002''], world_no_silence)"
proof -
  note f = world_no_silence_files
  have m: "read_manifest world_no_silence = Inr manifest_3"
    by (simp add: read_manifest_def f)
  have x: "\<not> file_exists world_no_silence (ChunkMp3 ''ch1-chunk-002'')"
    by (simp add: file_exists_def f)
  have r: "concatChapterAudio env_ok world_no_silence = Inl (Silence_missing 2.0, world_no_silence)"
    by (simp add: concatChapterAudio_def m) (simp add: file_exists_def f manifest_3_def mk_chunk_def)
  from m x r show ?thesis by simp
qed

text \<open>
  \<^bold>\<open>C5\<close>, amended. For every run of the assembler on a readable manifest in which at
  least one unit's clip is missing, the process exits with status 1 and the world is left
  as it was: no concat list and no final file are written and ffmpeg is not run. When the
  clips directory exists and every unit whose clip is present has the silence file it needs,
  the assembler aborts with the ids of all units whose clip is missing, in manifest order.
\<close>

theorem assembler_missing_clips:
  assumes m: "read_manifest w = Inr m"
    and miss: "\<exists>c\<in>set (chunks m). \<not> file_exists w (ChunkMp3 (chunk_id c))"
  shows "concat_main e w = (1, w) \<and>
         (file_exists w ChunksDir \<and>
          (\<forall>c\<in>set (chunks m). file_exists w (ChunkMp3 (chunk_id c)) \<longrightarrow> 0 < pauseAfter c \<longrightarrow>
             file_exists w (SilenceMp3 (pauseAfter c))) \<longrightarrow>
          concatChapterAudio e w = Inl (Clips_missing (missing_ids w (chunks m)), w))"
proof -
  from miss have ne: "missing_ids w (chunks m) \<noteq> []" by (simp add: missing_ids_Nil_iff)
  have "\<exists>err. concatChapterAudio e w = Inl (err, w)"
  proof (cases "concat_loop w (chunks m) ([], [])")
    case (Inl err)
    then show ?thesis by (simp add: concatChapterAudio_def m)
  next
    case (Inr r)
    obtain l ms where r: "r = (l, ms)" by (cases r)
    with Inr have "ms = [] @ missing_ids w (chunks m)" by (auto dest: concat_loop_missing)
    with ne Inr r show ?thesis by (simp add: concatChapterAudio_def m)
  qed
  then have a: "concat_main e w = (1, w)" by (auto simp: concat_main_def)
  have b: "file_exists w ChunksDir \<and>
          (\<forall>c\<in>set (chunks m). file_exists w (ChunkMp3 (chunk_id c)) \<longrightarrow> 0 < pauseAfter c \<longrightarrow>
             file_exists w (SilenceMp3 (pauseAfter c))) \<longrightarrow>
          concatChapterAudio e w = Inl (Clips_missing (missing_ids w (chunks m)), w)"
  proof
    assume h: "file_exists w ChunksDir \<and>
          (\<forall>c\<in>set (chunks m). file_exists w (ChunkMp3 (chunk_id c)) \<longrightarrow> 0 < pauseAfter c \<longrightarrow>
             file_exists w (SilenceMp3 (pauseAfter c)))"
    then have "concat_loop w (chunks m) ([], []) =
      Inr ([] @ concat_entries (present w (chunks m)), [] @ missing_ids w (chunks m))"
      by (intro concat_loop_result) simp
    with h ne read_manifest_exists [OF m]
    show "concatChapterAudio e w = Inl (Clips_missing (missing_ids w (chunks m)), w)"
      by (simp add: concatChapterAudio_def m)
  qed
  from a b show ?thesis by blast
qed

theorem assembler_missing_clips_witness:
  "read_manifest world_two_missing = Inr manifest_3 \<and>
   \<not> file_exists world_two_missing (ChunkMp3 ''ch1-chunk-001'') \<and>
   concat_main env_ok world_two_missing = (1, world_two_missing) \<and>
   concatChapterAudio env_ok world_two_missing =
     Inl (Clips_missing [''ch1-chunk-001'', ''ch1-chunk-002''], world_two_missing)"
proof -
  note f = world_two_missing_files
  have m: "read_manifest world_two_missing = Inr manifest_3"
    by (simp add: read_manifest_def f)
  have x: "\<not> file_exists world_two_missing (ChunkMp3 ''ch1-chunk-001'')"
    by (simp add: file_exists_def f)
  have ex: "\<exists>c\<in>set (chunks manifest_3). \<not> file_exists world_two_missing (ChunkMp3 (chunk_id c))"
    by (simp add: file_exists_def f manifest_3_def mk_chunk_def)
  have d: "file_exists world_two_missing ChunksDir"
    by (simp add: file_exists_def f)
  have sil: "\<forall>c\<in>set (chunks manifest_3). file_exists world_two_missing (ChunkMp3 (chunk_id c)) \<longrightarrow>
      0 < pauseAfter c \<longrightarrow> file_exists world_two_missing (SilenceMp3 (pauseAfter c))"
    by (simp add: file_exists_def f manifest_3_def mk_chunk_def)
  have ids: "missing_ids world_two_missing (chunks manifest_3) = [''ch1-chunk-001'', ''ch1-chunk-002'']"
    by (simp add: missing_ids_def file_exists_def f manifest_3_def mk_chunk_def)
  from assembler_missing_clips [OF m ex, of env_ok] m x d sil ids
  show ?thesis by simp
qed

text \<open>
  \<^bold>\<open>C8\<close>, as the claim states it, does not hold: ffmpeg is given the final file's own
  path as its output, and nothing is staged or restored. Here a final file from an earlier
  run exists, the tool fails having left an incomplete file, and the incomplete file stands
  in place of the earlier one.
\<close>

theorem assembler_tool_failure_counterexample:
  "files world_ready FinalMp3 = Some (Joined [ChunkMp3 ''ch1-chunk-000'']) \<and>
   concat_tool env_concat_fails
     [ChunkMp3 ''ch1-chunk-000'', SilenceMp3 2.0, ChunkMp3 ''ch1-chunk-001'',
      ChunkMp3 ''ch1-chunk-002'', SilenceMp3 0.8] = Tool_failed True \<and>
   fst (concat_main env_concat_fails world_ready) = 1 \<and>
   files (snd (concat_main env_concat_fails world_ready)) FinalMp3 = Some Partial"
proof -
  note f = world_ready_files
  have m: "read_manifest world_ready = Inr manifest_3"
    by (simp add: read_manifest_def f)
  have r: "concatChapterAudio env_concat_fails world_ready =
     Inl (Concat_tool_failed,
          write_file FinalMp3 Partial
            ((write_file ConcatList (ListText [ChunkMp3 ''ch1-chunk-000'', SilenceMp3 2.0, ChunkMp3 ''ch1-chunk-001'',
      ChunkMp3 ''ch1-chunk-002'', SilenceMp3 0.8]) world_ready)
             \<lparr>ffmpeg_runs := ffmpeg_runs world_ready @ [Concat [ChunkMp3 ''ch1-chunk-000'', SilenceMp3 2.0, ChunkMp3 ''ch1-chunk-001'',
      ChunkMp3 ''ch1-chunk-002'', SilenceMp3 0.8]]\<rparr>))"
    by (simp add: concatChapterAudio_def m) (simp add: file_exists_def f manifest_3_def mk_chunk_def env_concat_fails_def write_file_def)
  show ?thesis
    by (simp add: concat_main_def r) (simp add: f env_concat_fails_def write_file_def)
qed

text \<open>
  \<^bold>\<open>C8\<close>, amended. If the concatenation tool fails, the assembler ends with exit status 1
  and the failure of the tool. The tool was run once, on the concat list, with the final
  file's own path as its output: that path holds the incomplete file when the tool left one
  and what it held before otherwise. Apart from the concat list file, every other file is as
  it was.
\<close>

theorem assembler_tool_failure:
  assumes m: "read_manifest w = Inr m"
    and d: "file_exists w ChunksDir"
    and clips: "\<forall>c\<in>set (chunks m). file_exists w (ChunkMp3 (chunk_id c))"
    and sil: "\<forall>c\<in>set (chunks m). 0 < pauseAfter c \<longrightarrow> file_exists w (SilenceMp3 (pauseAfter c))"
    and fail: "concat_tool e (concat_entries (chunks m)) = Tool_failed left"
  shows "fst (concat_main e w) = 1 \<and>
         concatChapterAudio e w = Inl (Concat_tool_failed, snd (concat_main e w)) \<and>
         ffmpeg_runs (snd (concat_main e w)) = ffmpeg_runs w @ [Concat (concat_entries (chunks m))] \<and>
         files (snd (concat_main e w)) FinalMp3 = (if left then Some Partial else files w FinalMp3) \<and>
         (\<forall>p. p \<noteq> FinalMp3 \<and> p \<noteq> ConcatList \<longrightarrow> files (snd (concat_main e w)) p = files w p)"
  by (simp add: concat_main_def concatChapterAudio_ready [OF m d clips sil] fail Let_def write_file_def)

theorem assembler_tool_failure_witness:
  "read_manifest world_ready = Inr manifest_3 \<and> file_exists world_ready ChunksDir \<and>
   concat_tool env_concat_fails (concat_entries (chunks manifest_3)) = Tool_failed True \<and>
   fst (concat_main env_concat_fails world_ready) = 1 \<and>
   files (snd (concat_main env_concat_fails world_ready)) FinalMp3 = Some Partial \<and>
   files (snd (concat_main env_concat_fails world_ready)) (ChunkMp3 ''ch1-chunk-001'') = Some (Speech [1])"
proof -
  note f = world_ready_files
  have m: "read_manifest world_ready = Inr manifest_3"
    by (simp add: read_manifest_def f)
  have d: "file_exists world_ready ChunksDir"
    by (simp add: file_exists_def f)
  have clips: "\<forall>c\<in>set (chunks manifest_3). file_exists world_ready (ChunkMp3 (chunk_id c))"
    by (simp add: file_exists_def f manifest_3_def mk_chunk_def)
  have sil: "\<forall>c\<in>set (chunks manifest_3). 0 < pauseAfter c \<longrightarrow>
      file_exists world_ready (SilenceMp3 (pauseAfter c))"
    by (simp add: file_exists_def f manifest_3_def mk_chunk_def)
  have fail: "concat_tool env_concat_fails (concat_entries (chunks manifest_3)) = Tool_failed True"
    by (simp add: env_concat_fails_def)
  have c1: "files world_ready (ChunkMp3 ''ch1-chunk-001'') = Some (Speech [1])"
    by (simp add: f)
  from assembler_tool_failure [OF m d clips sil fail] m d fail c1
  show ?thesis by simp
qed

end
